theory Spec2Isabelle
  imports Complex_Main "HOL-Library.Sublist"
begin

section \<open>JavaScript values and strings\<close>

text \<open>
  The build script is JavaScript. A JavaScript string is a sequence of code units; here a
  string is a \<^typ>\<open>string\<close> whose characters stand for the code units 0 to 255. Token
  paths and color values are ASCII in practice. The character classes of the regular
  expressions (\<open>\s\<close>, \<open>\d\<close>, \<open>.\<close>) are written out for this range.

  A value read from a token (\<open>token.value\<close>, \<open>token.$type\<close>, ...) is a string or
  something else; of a value that is not a string the script only ever asks whether it
  is truthy (\<open>undefined\<close>, \<open>null\<close>, \<open>0\<close>, \<open>NaN\<close> and \<open>false\<close> are falsy, objects and
  other numbers are truthy).
\<close>

datatype jsval = JStr string | JOther bool

abbreviation undefined_js :: jsval where
  "undefined_js \<equiv> JOther False"

fun truthy :: "jsval \<Rightarrow> bool" where
  "truthy (JStr s) = (s \<noteq> [])"
| "truthy (JOther b) = b"

text \<open>\<open>a || b\<close>\<close>

definition js_or :: "jsval \<Rightarrow> jsval \<Rightarrow> jsval" where
  "js_or a b = (if truthy a then a else b)"

text \<open>\<open>\s\<close>: TAB, LF, VT, FF, CR, SP and NBSP are the white space and line terminators
  below 256. \<open>\d\<close> is \<open>[0-9]\<close>.\<close>

definition isSpace :: "char \<Rightarrow> bool" where
  "isSpace c = (c \<in> set [CHR 0x09, CHR 0x0A, CHR 0x0B, CHR 0x0C, CHR 0x0D, CHR 0x20, CHR 0xA0])"

definition isDigit :: "char \<Rightarrow> bool" where
  "isDigit c = (c \<in> set ''0123456789'')"

definition isHexDigit :: "char \<Rightarrow> bool" where
  "isHexDigit c = (c \<in> set ''0123456789abcdefABCDEF'')"

definition isNumChar :: "char \<Rightarrow> bool" where
  "isNumChar c = (isDigit c \<or> c = CHR ''.'')"

text \<open>The line terminators that \<open>.\<close> does not match (below 256: LF and CR).\<close>

definition isLineTerminator :: "char \<Rightarrow> bool" where
  "isLineTerminator c = (c = CHR 0x0A \<or> c = CHR 0x0D)"

definition isLowerAscii :: "char \<Rightarrow> bool" where
  "isLowerAscii c = (c \<in> set ''abcdefghijklmnopqrstuvwxyz'')"

definition isUpperAscii :: "char \<Rightarrow> bool" where
  "isUpperAscii c = (c \<in> set ''ABCDEFGHIJKLMNOPQRSTUVWXYZ'')"

text \<open>
  \<open>String.prototype.toUpperCase\<close> and \<open>toLowerCase\<close>, one code unit at a time. Below 256
  the lower-case letters are \<open>a-z\<close> and 0xE0-0xFE without 0xF7, each 32 above its
  upper-case letter; 0xDF (sharp s) becomes \<open>SS\<close>. The upper-case forms of 0xB5 and 0xFF
  lie above 255 and are not represented: these two code units are left unchanged.
\<close>

definition lowerLetters :: string where
  "lowerLetters = ''abcdefghijklmnopqrstuvwxyz'' @
     [CHR 0xE0, CHR 0xE1, CHR 0xE2, CHR 0xE3, CHR 0xE4, CHR 0xE5, CHR 0xE6, CHR 0xE7,
      CHR 0xE8, CHR 0xE9, CHR 0xEA, CHR 0xEB, CHR 0xEC, CHR 0xED, CHR 0xEE, CHR 0xEF,
      CHR 0xF0, CHR 0xF1, CHR 0xF2, CHR 0xF3, CHR 0xF4, CHR 0xF5, CHR 0xF6, CHR 0xF8,
      CHR 0xF9, CHR 0xFA, CHR 0xFB, CHR 0xFC, CHR 0xFD, CHR 0xFE]"

definition upperLetters :: string where
  "upperLetters = ''ABCDEFGHIJKLMNOPQRSTUVWXYZ'' @
     [CHR 0xC0, CHR 0xC1, CHR 0xC2, CHR 0xC3, CHR 0xC4, CHR 0xC5, CHR 0xC6, CHR 0xC7,
      CHR 0xC8, CHR 0xC9, CHR 0xCA, CHR 0xCB, CHR 0xCC, CHR 0xCD, CHR 0xCE, CHR 0xCF,
      CHR 0xD0, CHR 0xD1, CHR 0xD2, CHR 0xD3, CHR 0xD4, CHR 0xD5, CHR 0xD6, CHR 0xD8,
      CHR 0xD9, CHR 0xDA, CHR 0xDB, CHR 0xDC, CHR 0xDD, CHR 0xDE]"

definition upperChar :: "char \<Rightarrow> string" where
  "upperChar c =
     (if c = CHR 0xDF then ''SS''
      else case map_of (zip lowerLetters upperLetters) c of Some u \<Rightarrow> [u] | None \<Rightarrow> [c])"

definition lowerChar :: "char \<Rightarrow> char" where
  "lowerChar c = (case map_of (zip upperLetters lowerLetters) c of Some l \<Rightarrow> l | None \<Rightarrow> c)"

definition toUpperCase :: "string \<Rightarrow> string" where
  "toUpperCase s = concat (map upperChar s)"

definition toLowerCase :: "string \<Rightarrow> string" where
  "toLowerCase s = map lowerChar s"

text \<open>\<open>s.startsWith(p)\<close>, \<open>s.endsWith(p)\<close>, \<open>s.includes(p)\<close>\<close>

fun startsWith :: "string \<Rightarrow> string \<Rightarrow> bool" where
  "startsWith s [] = True"
| "startsWith [] (p # ps) = False"
| "startsWith (c # cs) (p # ps) = (c = p \<and> startsWith cs ps)"

definition endsWith :: "string \<Rightarrow> string \<Rightarrow> bool" where
  "endsWith s p = startsWith (rev s) (rev p)"

fun includes_js :: "string \<Rightarrow> string \<Rightarrow> bool" where
  "includes_js [] p = (p = [])"
| "includes_js (c # cs) p = (startsWith (c # cs) p \<or> includes_js cs p)"

text \<open>\<open>parts.join(sep)\<close>\<close>

fun join :: "string \<Rightarrow> string list \<Rightarrow> string" where
  "join sep [] = []"
| "join sep [x] = x"
| "join sep (x # y # ys) = x @ sep @ join sep (y # ys)"

text \<open>\<open>s.split('-')\<close>: the pieces between the separators; never the empty list.\<close>

fun split :: "char \<Rightarrow> string \<Rightarrow> string list" where
  "split sep [] = [[]]"
| "split sep (c # cs) =
     (if c = sep then [] # split sep cs
      else (case split sep cs of [] \<Rightarrow> [[c]] | p # ps \<Rightarrow> (c # p) # ps))"

text \<open>\<open>s.padStart(2, '0')\<close>\<close>

definition padStart2 :: "string \<Rightarrow> string" where
  "padStart2 s = replicate (2 - length s) CHR ''0'' @ s"

section \<open>Numbers\<close>

text \<open>
  A JavaScript number is an IEEE 754 double. The script only produces numbers that are
  not negative: a finite value (a rational that a double represents), \<open>Infinity\<close> or
  \<open>NaN\<close>.
\<close>

datatype jsnum = Fin rat | PosInf | NotANumber

fun bitLength :: "nat \<Rightarrow> nat" where
  "bitLength n = (if n = 0 then 0 else Suc (bitLength (n div 2)))"

definition pow2 :: "int \<Rightarrow> rat" where
  "pow2 k = (if 0 \<le> k then 2 ^ nat k else 1 / 2 ^ nat (- k))"

text \<open>The exponent \<open>e\<close> of a positive rational: \<open>2^e \<le> q < 2^(e+1)\<close>.\<close>

definition binadeExp :: "rat \<Rightarrow> int" where
  "binadeExp q =
     (if 1 \<le> q then int (bitLength (nat \<lfloor>q\<rfloor>)) - 1
      else - int (bitLength (nat (\<lceil>1 / q\<rceil> - 1))))"

text \<open>Rounding to the nearest integer, a tie to the even one.\<close>

definition roundEven :: "rat \<Rightarrow> int" where
  "roundEven x =
     (let f = \<lfloor>x\<rfloor>; r = x - of_int f in
      if r < 1 / 2 then f
      else if 1 / 2 < r then f + 1
      else if even f then f else f + 1)"

text \<open>
  The double nearest to a rational that is not negative (round to nearest, ties to even):
  53 significant bits, the exponent not below -1022 (subnormal numbers), and \<open>Infinity\<close>
  from \<open>2^1024\<close> on.
\<close>

definition toDouble :: "rat \<Rightarrow> jsnum" where
  "toDouble q =
     (if q \<le> 0 then Fin 0
      else let e = max (binadeExp q) (- 1022);
               u = pow2 (e - 52);
               v = of_int (roundEven (q / u)) * u
           in if pow2 1024 \<le> v then PosInf else Fin v)"

text \<open>\<open>x * y\<close> on numbers that are not negative\<close>

fun times_js :: "jsnum \<Rightarrow> jsnum \<Rightarrow> jsnum" where
  "times_js (Fin a) (Fin b) = toDouble (a * b)"
| "times_js NotANumber y = NotANumber"
| "times_js x NotANumber = NotANumber"
| "times_js PosInf (Fin b) = (if b = 0 then NotANumber else PosInf)"
| "times_js (Fin a) PosInf = (if a = 0 then NotANumber else PosInf)"
| "times_js PosInf PosInf = PosInf"

text \<open>\<open>Math.round(x)\<close>: the nearest integer, a tie upwards.\<close>

fun Math_round :: "jsnum \<Rightarrow> jsnum" where
  "Math_round (Fin q) = Fin (of_int \<lfloor>q + 1 / 2\<rfloor>)"
| "Math_round PosInf = PosInf"
| "Math_round NotANumber = NotANumber"

text \<open>The value of a string of decimal digits.\<close>

definition digitVal :: "char \<Rightarrow> nat" where
  "digitVal c = of_char c - 48"

definition decVal :: "string \<Rightarrow> nat" where
  "decVal s = foldl (\<lambda>n c. 10 * n + digitVal c) 0 s"

text \<open>\<open>parseInt(s)\<close> for a string \<open>s\<close> that matched \<open>\d+\<close>.\<close>

definition parseInt :: "string \<Rightarrow> jsnum" where
  "parseInt s = toDouble (of_nat (decVal s))"

text \<open>
  \<open>parseFloat(s)\<close> for a string \<open>s\<close> that matched \<open>[\d.]+\<close>: the longest prefix that is a
  decimal literal (digits, then optionally a dot and digits, with a digit somewhere),
  or \<open>NaN\<close> when there is none. The number is the double nearest to the value of the
  literal, as the engines compute it; the standard would also allow the digits after the
  twentieth significant one to be ignored.
\<close>

definition parseFloat :: "string \<Rightarrow> jsnum" where
  "parseFloat s =
     (let i = takeWhile isDigit s; rest = dropWhile isDigit s;
          f = (case rest of [] \<Rightarrow> [] | c # t \<Rightarrow> if c = CHR ''.'' then takeWhile isDigit t else [])
      in if i = [] \<and> f = [] then NotANumber
         else toDouble (of_nat (decVal i) + of_nat (decVal f) / 10 ^ length f))"

text \<open>\<open>n.toString(16)\<close> for a number that is an integer, \<open>Infinity\<close> or \<open>NaN\<close>.\<close>

definition hexDigit :: "nat \<Rightarrow> char" where
  "hexDigit k = ''0123456789abcdef'' ! (k mod 16)"

fun hexDigits :: "nat \<Rightarrow> string" where
  "hexDigits n = (if n < 16 then [hexDigit n] else hexDigits (n div 16) @ [hexDigit n])"

fun toString16 :: "jsnum \<Rightarrow> string" where
  "toString16 (Fin q) = hexDigits (nat \<lfloor>q\<rfloor>)"
| "toString16 PosInf = ''Infinity''"
| "toString16 NotANumber = ''NaN''"

section \<open>The color parser\<close>

text \<open>
  The pattern
  \<^verbatim>\<open>/rgba?\(\s*(\d+)\s*,\s*(\d+)\s*,\s*(\d+)\s*(?:,\s*([\d.]+))?\s*\)/\<close>
  at the start of a string. Each repetition is followed by a character outside its
  class, so the greedy choice is the only one and backtracking finds nothing else. The
  result is the four groups and the rest of the string after the match.
\<close>

record rgba_groups =
  group_r :: string
  group_g :: string
  group_b :: string
  group_a :: "string option"

definition expect :: "string \<Rightarrow> string \<Rightarrow> string option" where
  "expect p s = (if startsWith s p then Some (drop (length p) s) else None)"

definition many1 :: "(char \<Rightarrow> bool) \<Rightarrow> string \<Rightarrow> (string \<times> string) option" where
  "many1 P s = (if takeWhile P s = [] then None else Some (takeWhile P s, dropWhile P s))"

definition skipSpace :: "string \<Rightarrow> string" where
  "skipSpace s = dropWhile isSpace s"

definition alphaGroup :: "string \<Rightarrow> (string option \<times> string) option" where
  "alphaGroup s =
     (case s of
        [] \<Rightarrow> None
      | c # t \<Rightarrow>
          if c = CHR '','' then
            (case many1 isNumChar (skipSpace t) of
               None \<Rightarrow> None
             | Some (a, s') \<Rightarrow> Some (Some a, s'))
          else Some (None, s))"

definition rgbaAt :: "string \<Rightarrow> (rgba_groups \<times> string) option" where
  "rgbaAt s =
     (case expect ''rgb'' s of None \<Rightarrow> None | Some s1 \<Rightarrow>
      case expect ''('' (if startsWith s1 ''a'' then drop 1 s1 else s1) of None \<Rightarrow> None | Some s2 \<Rightarrow>
      case many1 isDigit (skipSpace s2) of None \<Rightarrow> None | Some (r, s3) \<Rightarrow>
      case expect '','' (skipSpace s3) of None \<Rightarrow> None | Some s4 \<Rightarrow>
      case many1 isDigit (skipSpace s4) of None \<Rightarrow> None | Some (g, s5) \<Rightarrow>
      case expect '','' (skipSpace s5) of None \<Rightarrow> None | Some s6 \<Rightarrow>
      case many1 isDigit (skipSpace s6) of None \<Rightarrow> None | Some (b, s7) \<Rightarrow>
      case alphaGroup (skipSpace s7) of None \<Rightarrow> None | Some (a, s8) \<Rightarrow>
      case expect '')'' (skipSpace s8) of None \<Rightarrow> None | Some s9 \<Rightarrow>
        Some (\<lparr>group_r = r, group_g = g, group_b = b, group_a = a\<rparr>, s9))"

text \<open>\<open>value.match(...)\<close> without anchors: the first position where the pattern matches.\<close>

fun rgbaMatch :: "string \<Rightarrow> rgba_groups option" where
  "rgbaMatch [] = map_option fst (rgbaAt [])"
| "rgbaMatch (c # cs) =
     (case rgbaAt (c # cs) of Some m \<Rightarrow> Some (fst m) | None \<Rightarrow> rgbaMatch cs)"

text \<open>\<^verbatim>\<open>/^#([A-Fa-f0-9]{6})$/\<close> and \<^verbatim>\<open>/^#([A-Fa-f0-9]{8})$/\<close>: the group, when they match.\<close>

definition hexMatch :: "nat \<Rightarrow> string \<Rightarrow> string option" where
  "hexMatch n s =
     (case s of
        [] \<Rightarrow> None
      | c # h \<Rightarrow> if c = CHR ''#'' \<and> length h = n \<and> list_all isHexDigit h then Some h else None)"

text \<open>The channel strings of the \<open>rgba\<close> branch.\<close>

definition channelHex :: "jsnum \<Rightarrow> string" where
  "channelHex n = toUpperCase (padStart2 (toString16 n))"

definition alphaOf :: "string option \<Rightarrow> jsnum" where
  "alphaOf a =
     (case a of
        Some s \<Rightarrow> Math_round (times_js (parseFloat s) (Fin 255))
      | None \<Rightarrow> Fin 255)"

text \<open>\<open>toComposeColor(value)\<close>; \<open>None\<close> is \<open>null\<close>.\<close>

definition toComposeColor :: "jsval \<Rightarrow> string option" where
  "toComposeColor v =
     (case v of
        JOther b \<Rightarrow> None
      | JStr s \<Rightarrow>
          if s = [] then None
          else if startsWith s ''{'' \<and> endsWith s ''}'' then None
          else (case rgbaMatch s of
                  Some m \<Rightarrow>
                    Some (''Color(0x'' @ channelHex (alphaOf (group_a m))
                          @ channelHex (parseInt (group_r m))
                          @ channelHex (parseInt (group_g m))
                          @ channelHex (parseInt (group_b m)) @ '')'')
                | None \<Rightarrow>
                    (case hexMatch 6 s of
                       Some h \<Rightarrow> Some (''Color(0xFF'' @ toUpperCase h @ '')'')
                     | None \<Rightarrow>
                         (case hexMatch 8 s of
                            Some h \<Rightarrow>
                              (let hex = toUpperCase h
                               in Some (''Color(0x'' @ drop 6 hex @ take 6 hex @ '')''))
                          | None \<Rightarrow> None))))"

section \<open>Identifier normalizers\<close>

subsection \<open>The first variant of the script (\<open>build-tokens.js\<close>)\<close>

text \<open>\<^verbatim>\<open>part.replace(/-([a-zA-Z0-9])/g, (_, char) => char.toUpperCase())\<close>\<close>

definition isAlnum :: "char \<Rightarrow> bool" where
  "isAlnum c = (isLowerAscii c \<or> isUpperAscii c \<or> isDigit c)"

fun camelReplace :: "string \<Rightarrow> string" where
  "camelReplace [] = []"
| "camelReplace [c] = [c]"
| "camelReplace (c # d # cs) =
     (if c = CHR ''-'' \<and> isAlnum d then upperChar d @ camelReplace cs
      else c # camelReplace (d # cs))"

text \<open>\<^verbatim>\<open>part.replace(/-temp$/, 'Temp')\<close>\<close>

definition replaceTempEnd :: "string \<Rightarrow> string" where
  "replaceTempEnd s = (if endsWith s ''-temp'' then take (length s - 5) s @ ''Temp'' else s)"

text \<open>The function mapped over the path by \<open>toPrimitiveKotlinName\<close>.\<close>

definition kotlinPart_v1 :: "nat \<Rightarrow> string \<Rightarrow> string" where
  "kotlinPart_v1 index part0 =
     (let part1 = (if part0 \<noteq> [] \<and> isDigit (hd part0) then CHR ''_'' # part0 else part0);
          part2 = replaceTempEnd part1;
          camelPart = camelReplace part2
      in case camelPart of
           [] \<Rightarrow> []
         | c # cs \<Rightarrow> if index = 0 then lowerChar c # cs else upperChar c @ cs)"

definition toPrimitiveKotlinName_v1 :: "string list \<Rightarrow> string" where
  "toPrimitiveKotlinName_v1 path = concat (map2 kotlinPart_v1 [0 ..< length path] path)"

text \<open>
  The function mapped over the relevant path by the format \<open>compose/semantic\<close>, and the
  name that the format gives to a path: \<^verbatim>\<open>path.slice(3)\<close>, the function on every segment
  with its index, and \<^verbatim>\<open>.join('')\<close>.
\<close>

definition semanticPart_v1 :: "nat \<Rightarrow> string \<Rightarrow> string" where
  "semanticPart_v1 index part0 =
     (let part1 = (if part0 \<noteq> [] \<and> isDigit (hd part0) then CHR ''_'' # part0 else part0);
          camelPart = camelReplace part1
      in case camelPart of
           [] \<Rightarrow> []
         | c # cs \<Rightarrow> if index = 0 then lowerChar c # cs else upperChar c @ cs)"

definition semanticName_v1 :: "string list \<Rightarrow> string" where
  "semanticName_v1 path =
     (let relevantPath = drop 3 path
      in concat (map2 semanticPart_v1 [0 ..< length relevantPath] relevantPath))"

subsection \<open>The most complete variant\<close>

text \<open>\<^verbatim>\<open>/^\d+$/.test(part)\<close>\<close>

definition allDigits :: "string \<Rightarrow> bool" where
  "allDigits part = (part \<noteq> [] \<and> list_all isDigit part)"

text \<open>\<^verbatim>\<open>part.charAt(0).toUpperCase() + part.slice(1)\<close>\<close>

definition capitalize :: "string \<Rightarrow> string" where
  "capitalize part = (case part of [] \<Rightarrow> [] | c # cs \<Rightarrow> upperChar c @ cs)"

text \<open>\<^verbatim>\<open>.replace(/Hi$/g, 'High')\<close> and \<^verbatim>\<open>.replace(/Hi([A-Z])/g, 'High$1')\<close>\<close>

definition replaceHiEnd :: "string \<Rightarrow> string" where
  "replaceHiEnd s = (if endsWith s ''Hi'' then s @ ''gh'' else s)"

fun replaceHiUpper :: "string \<Rightarrow> string" where
  "replaceHiUpper (a # b # c # cs) =
     (if a = CHR ''H'' \<and> b = CHR ''i'' \<and> isUpperAscii c then ''High'' @ c # replaceHiUpper cs
      else a # replaceHiUpper (b # c # cs))"
| "replaceHiUpper s = s"

definition toPascalCaseSemantic :: "string \<Rightarrow> string" where
  "toPascalCaseSemantic str =
     replaceHiUpper (replaceHiEnd (concat (map
       (\<lambda>part. if allDigits part then part else capitalize part) (split CHR ''-'' str))))"

text \<open>
  Matching with the flag \<open>i\<close> against a pattern of ASCII characters: a code unit
  matches a letter of the pattern when it is that letter in either case.
\<close>

definition canon :: "char \<Rightarrow> char" where
  "canon c =
     (case map_of (zip ''abcdefghijklmnopqrstuvwxyz'' ''ABCDEFGHIJKLMNOPQRSTUVWXYZ'') c of
        Some u \<Rightarrow> u
      | None \<Rightarrow> c)"

definition startsWithCI :: "string \<Rightarrow> string \<Rightarrow> bool" where
  "startsWithCI s p = startsWith (map canon s) (map canon p)"

text \<open>\<^verbatim>\<open>s.replace(/^prefix/i, '')\<close>\<close>

definition removePrefixCI :: "string \<Rightarrow> string \<Rightarrow> string" where
  "removePrefixCI p s = (if startsWithCI s p then drop (length p) s else s)"

text \<open>\<^verbatim>\<open>s.replace(/word/gi, 'Word')\<close> for a word that is not empty: every occurrence,
  from the left, the search going on after each replaced one.\<close>

function replaceAllCI :: "string \<Rightarrow> string \<Rightarrow> string \<Rightarrow> string" where
  "replaceAllCI p r [] = []"
| "replaceAllCI p r (c # cs) =
     (if p \<noteq> [] \<and> startsWithCI (c # cs) p then r @ replaceAllCI p r (drop (length p - 1) cs)
      else c # replaceAllCI p r cs)"
  by pat_completeness auto
termination
  by (relation "measure (\<lambda>(p, r, s). length s)") auto

definition colorWords :: "(string \<times> string) list" where
  "colorWords =
     [(''grey'', ''Grey''), (''blue'', ''Blue''), (''green'', ''Green''), (''white'', ''White''),
      (''black'', ''Black''), (''yellow'', ''Yellow''), (''red'', ''Red''), (''pink'', ''Pink''),
      (''alpha'', ''Alpha''), (''naval'', ''Naval''), (''royal'', ''Royal''),
      (''electric'', ''Electric''), (''duck'', ''Duck''), (''lime'', ''Lime''),
      (''peacock'', ''Peacock''), (''pop'', ''Pop''), (''strawberry'', ''Strawberry''),
      (''raspberry'', ''Raspberry''), (''fuchsia'', ''Fuchsia''), (''marine'', ''Marine''),
      (''sky'', ''Sky''), (''tropos'', ''Tropos''), (''stratos'', ''Stratos''),
      (''platinum'', ''Platinum''), (''diamond'', ''Diamond''), (''gold'', ''Gold''),
      (''silver'', ''Silver''), (''limitless'', ''Limitless''), (''classic'', ''Classic''),
      (''temp'', ''Temp'')]"

definition toPascalCasePrimitive :: "string \<Rightarrow> string" where
  "toPascalCasePrimitive str =
     concat (map
       (\<lambda>part. if allDigits part then part
              else foldl (\<lambda>result (w, r). replaceAllCI w r result) (capitalize part) colorWords)
       (split CHR ''-'' str))"

text \<open>\<^verbatim>\<open>cleanName.replace(/-temp$/i, 'Temp')\<close>\<close>

definition replaceTempEndCI :: "string \<Rightarrow> string" where
  "replaceTempEndCI s =
     (if startsWithCI (rev s) (rev ''-temp'') then take (length s - 5) s @ ''Temp'' else s)"

definition toPrimitiveKotlinName :: "string list \<Rightarrow> string" where
  "toPrimitiveKotlinName path =
     (let fullName = join ''-'' path;
          cleanName = removePrefixCI ''leg-'' (removePrefixCI ''wel-'' (removePrefixCI ''wel-prim-''
            (removePrefixCI ''wel-prim-color-'' (removePrefixCI ''wel-prim-color-leg-'' fullName))))
      in toPascalCasePrimitive (replaceTempEndCI cleanName))"

section \<open>Tokens\<close>

text \<open>
  A token as Style Dictionary hands it to a format: its path, its kind (\<open>$type\<close> or
  \<open>type\<close>), its resolved value (\<open>value\<close> or \<open>$value\<close>) and, in \<open>original\<close>, the value as
  written in the token file (a brace reference there is not resolved).
\<close>

record token_original =
  orig_dollar_value :: jsval
  orig_value :: jsval

record token =
  path :: "string list"
  dollar_type :: jsval
  tok_type :: jsval
  tok_value :: jsval
  dollar_value :: jsval
  original :: "token_original option"

text \<open>\<^verbatim>\<open>(token.$type || token.type) === 'color'\<close>\<close>

definition isColor :: "token \<Rightarrow> bool" where
  "isColor t = (js_or (dollar_type t) (tok_type t) = JStr ''color'')"

text \<open>\<^verbatim>\<open>token.value || token.$value\<close>\<close>

definition tokenValue :: "token \<Rightarrow> jsval" where
  "tokenValue t = js_or (tok_value t) (dollar_value t)"

text \<open>\<^verbatim>\<open>token.original?.$value || token.original?.value\<close>\<close>

definition originalValue :: "token \<Rightarrow> jsval" where
  "originalValue t =
     (case original t of
        None \<Rightarrow> undefined_js
      | Some orig \<Rightarrow> js_or (orig_dollar_value orig) (orig_value orig))"

text \<open>\<^verbatim>\<open>originalValue.match(/^\{(.+)\}$/)\<close>: the group, when the pattern matches.\<close>

definition refMatch :: "string \<Rightarrow> string option" where
  "refMatch s =
     (case s of
        [] \<Rightarrow> None
      | c # t \<Rightarrow>
          if c = CHR ''{'' \<and> t \<noteq> [] \<and> last t = CHR ''}'' \<and> butlast t \<noteq> []
             \<and> list_all (\<lambda>x. \<not> isLineTerminator x) (butlast t)
          then Some (butlast t) else None)"

text \<open>The brace reference that a token was written with, if it was written with one.\<close>

definition originalRef :: "token \<Rightarrow> string option" where
  "originalRef t =
     (case originalValue t of
        JOther b \<Rightarrow> None
      | JStr s \<Rightarrow> if s = [] then None else refMatch s)"

section \<open>Collecting the primitives and the brand layer\<close>

text \<open>
  The script keeps three global \<open>Map\<close>s. The two lookup maps, from a path joined with
  dots to an identifier, are partial functions here; each collecting format is a function
  from the tokens it is given and the map before to the map after.
\<close>

type_synonym pathmap = "string \<rightharpoonup> string"

text \<open>The format \<open>compose/primitives-collect\<close>.\<close>

definition primitivesCollectToken :: "pathmap \<Rightarrow> token \<Rightarrow> pathmap" where
  "primitivesCollectToken primitivePathMap t =
     (let name = toPrimitiveKotlinName (path t);
          pathKey = join ''.'' (path t)
      in primitivePathMap(pathKey \<mapsto> ''AccorColorPrimitives.'' @ name))"

definition primitivesCollect :: "token list \<Rightarrow> pathmap \<Rightarrow> pathmap" where
  "primitivesCollect allTokens primitivePathMap =
     foldl primitivesCollectToken primitivePathMap (filter isColor allTokens)"

text \<open>The format \<open>compose/brandbook-collect\<close>.\<close>

definition brandbookCollectToken :: "pathmap \<Rightarrow> pathmap \<Rightarrow> token \<Rightarrow> pathmap" where
  "brandbookCollectToken primitivePathMap brandbookPathMap t =
     (let pathKey = join ''.'' (path t)
      in case originalRef t of
           None \<Rightarrow> brandbookPathMap
         | Some primitivePath \<Rightarrow>
             (case primitivePathMap primitivePath of
                None \<Rightarrow> brandbookPathMap
              | Some name \<Rightarrow> brandbookPathMap(pathKey \<mapsto> name)))"

definition brandbookCollect :: "pathmap \<Rightarrow> token list \<Rightarrow> pathmap \<Rightarrow> pathmap" where
  "brandbookCollect primitivePathMap allTokens brandbookPathMap =
     foldl (brandbookCollectToken primitivePathMap) brandbookPathMap (filter isColor allTokens)"

text \<open>The format \<open>compose/primitives\<close>: the entries of the primitives object, a name and
  its line each, before the script sorts them with \<open>localeCompare\<close> (an ordering of the
  host that is not modelled) and joins the lines.\<close>

definition primitiveEntry :: "token \<Rightarrow> (string \<times> string) option" where
  "primitiveEntry t =
     (case toComposeColor (tokenValue t) of
        None \<Rightarrow> None
      | Some composeColor \<Rightarrow>
          (let name = toPrimitiveKotlinName (path t)
           in Some (name, ''    val '' @ name @ '' = '' @ composeColor)))"

definition primitiveEntries :: "token list \<Rightarrow> (string \<times> string) list" where
  "primitiveEntries allTokens =
     List.map_filter primitiveEntry
       (filter (\<lambda>t. isColor t \<and> ''leg'' \<notin> set (path t)) allTokens)"

section \<open>Collecting and merging the semantic colors\<close>

text \<open>\<open>getPrimitiveRef(token)\<close>; \<open>None\<close> is \<open>null\<close>.\<close>

definition getPrimitiveRef :: "pathmap \<Rightarrow> pathmap \<Rightarrow> token \<Rightarrow> string option" where
  "getPrimitiveRef primitivePathMap brandbookPathMap t =
     (case originalRef t of
        None \<Rightarrow> None
      | Some refPath \<Rightarrow>
          (case primitivePathMap refPath of
             Some name \<Rightarrow> Some name
           | None \<Rightarrow> brandbookPathMap refPath))"

text \<open>
  \<open>semanticColorsMap\<close> is a \<open>Map\<close> from an identifier to an object with the fields
  \<open>order\<close>, \<open>light\<close> and \<open>dark\<close>, the last two possibly absent. A \<open>Map\<close> iterates in the
  order of insertion: the registry is the list of its entries in that order.
\<close>

datatype mode = Light | Dark

record colors =
  order :: nat
  light :: "string option"
  dark :: "string option"

type_synonym registry = "(string \<times> colors) list"

definition has :: "registry \<Rightarrow> string \<Rightarrow> bool" where
  "has reg name = (name \<in> fst ` set reg)"

text \<open>\<^verbatim>\<open>semanticColorsMap.get(name)[mode] = v\<close>\<close>

definition setMode :: "mode \<Rightarrow> string \<Rightarrow> colors \<Rightarrow> colors" where
  "setMode m v c = (case m of Light \<Rightarrow> c\<lparr>light := Some v\<rparr> | Dark \<Rightarrow> c\<lparr>dark := Some v\<rparr>)"

definition getMode :: "mode \<Rightarrow> colors \<Rightarrow> string option" where
  "getMode m c = (case m of Light \<Rightarrow> light c | Dark \<Rightarrow> dark c)"

definition assign :: "string \<Rightarrow> mode \<Rightarrow> string \<Rightarrow> registry \<Rightarrow> registry" where
  "assign name m v reg = map (\<lambda>(k, c). if k = name then (k, setMode m v c) else (k, c)) reg"

text \<open>\<open>x || y\<close> for an \<open>x\<close> that is a string, \<open>null\<close> or \<open>undefined\<close>\<close>

definition or_string :: "string option \<Rightarrow> string \<Rightarrow> string" where
  "or_string x y = (case x of None \<Rightarrow> y | Some v \<Rightarrow> if v = [] then y else v)"

text \<open>The filter of \<open>compose/semantic-collect\<close>.\<close>

definition pathStr :: "token \<Rightarrow> string" where
  "pathStr t = toLowerCase (join ''.'' (path t))"

definition isSemanticPath :: "string list \<Rightarrow> bool" where
  "isSemanticPath p =
     (case p of
        a # b # c # rest \<Rightarrow> a = ''wel'' \<and> b = ''sem'' \<and> c = ''color''
      | _ \<Rightarrow> False)"

definition semanticFilter :: "token \<Rightarrow> bool" where
  "semanticFilter t =
     (if \<not> isColor t then False
      else if includes_js (pathStr t) ''hover'' \<or> includes_js (pathStr t) ''pressed'' then False
      else if \<not> isSemanticPath (path t) then False
      else True)"

text \<open>The body of its \<open>forEach\<close>.\<close>

definition semanticName :: "token \<Rightarrow> string" where
  "semanticName t = toPascalCaseSemantic (join ''-'' (drop 3 (path t)))"

definition semanticCollectToken ::
    "mode \<Rightarrow> pathmap \<Rightarrow> pathmap \<Rightarrow> registry \<Rightarrow> token \<Rightarrow> registry" where
  "semanticCollectToken m primitivePathMap brandbookPathMap reg t =
     (case toComposeColor (tokenValue t) of
        None \<Rightarrow> reg
      | Some composeColor \<Rightarrow>
          (let name = semanticName t;
               primitiveRef = getPrimitiveRef primitivePathMap brandbookPathMap t;
               reg1 = (if \<not> has reg name
                       then reg @ [(name, \<lparr>order = length reg, light = None, dark = None\<rparr>)]
                       else reg)
           in assign name m (or_string primitiveRef composeColor) reg1))"

definition semanticCollect ::
    "mode \<Rightarrow> pathmap \<Rightarrow> pathmap \<Rightarrow> token list \<Rightarrow> registry \<Rightarrow> registry" where
  "semanticCollect m primitivePathMap brandbookPathMap allTokens reg =
     foldl (semanticCollectToken m primitivePathMap brandbookPathMap) reg
       (filter semanticFilter allTokens)"

text \<open>
  \<open>generateMergedSemanticColors\<close>: the entries in the order of \<open>order\<close> (the sort of the
  host is stable, as \<^const>\<open>sort_key\<close> is), each with the light and the dark value that
  is written into the document, and the document.
\<close>

definition mergedEntry :: "string \<times> colors \<Rightarrow> string \<times> string \<times> string" where
  "mergedEntry e =
     (case e of (name, c) \<Rightarrow>
        (name,
         or_string (light c) ''Color.Unspecified'',
         or_string (dark c) (or_string (light c) ''Color.Unspecified'')))"

definition mergedEntries :: "registry \<Rightarrow> (string \<times> string \<times> string) list" where
  "mergedEntries reg = map mergedEntry (sort_key (\<lambda>e. order (snd e)) reg)"

definition accessorText :: "string \<times> string \<times> string \<Rightarrow> string" where
  "accessorText e =
     (case e of (name, l, d) \<Rightarrow>
        ''    val '' @ name @ [CHR 0x0A] @ ''        @Composable'' @ [CHR 0x0A]
        @ ''        get() = getColor(light = '' @ l @ '', dark = '' @ d @ '')'')"

definition generateMergedSemanticColors :: "string \<Rightarrow> string \<Rightarrow> registry \<Rightarrow> string" where
  "generateMergedSemanticColors packageName objectName reg =
     ''package '' @ packageName @ [CHR 0x0A, CHR 0x0A]
     @ ''import androidx.compose.runtime.Composable'' @ [CHR 0x0A]
     @ ''import com.accor.designsystem.compose.AccorColor.getColor'' @ [CHR 0x0A, CHR 0x0A]
     @ ''object '' @ objectName @ '' {'' @ [CHR 0x0A, CHR 0x0A]
     @ join [CHR 0x0A] (map accessorText (mergedEntries reg)) @ [CHR 0x0A]
     @ ''}'' @ [CHR 0x0A]"

section \<open>The semantic colors in the first variant of the script\<close>

text \<open>
  In \<open>build-tokens.js\<close> there is no registry: the format \<open>compose/semantic\<close> writes one
  document for each color mode. The filter of the file entry keeps the tokens under
  \<open>wel.sem.color\<close>; the filter of the format keeps the tokens whose kind is \<open>color\<close>; a
  token whose value is not a color gives no line.
\<close>

definition semanticTokens_v1 :: "token list \<Rightarrow> token list" where
  "semanticTokens_v1 allTokens = filter (\<lambda>t. isSemanticPath (path t)) allTokens"

definition composeSemanticLine_v1 :: "token \<Rightarrow> string option" where
  "composeSemanticLine_v1 t =
     (case toComposeColor (tokenValue t) of
        None \<Rightarrow> None
      | Some composeColor \<Rightarrow>
          Some (''    val '' @ semanticName_v1 (path t) @ '' = '' @ composeColor))"

definition composeSemanticLines_v1 :: "token list \<Rightarrow> string list" where
  "composeSemanticLines_v1 allTokens =
     List.map_filter composeSemanticLine_v1 (filter isColor allTokens)"

definition composeSemantic_v1 :: "string option \<Rightarrow> string option \<Rightarrow> token list \<Rightarrow> string" where
  "composeSemantic_v1 optPackageName optObjectName allTokens =
     (let packageName = or_string optPackageName ''com.example.tokens'';
          objectName = or_string optObjectName ''Colors'';
          tokens = join [CHR 0x0A] (composeSemanticLines_v1 allTokens)
      in ''package '' @ packageName @ [CHR 0x0A, CHR 0x0A]
         @ ''import androidx.compose.ui.graphics.Color'' @ [CHR 0x0A, CHR 0x0A]
         @ ''object '' @ objectName @ '' {'' @ [CHR 0x0A]
         @ tokens @ [CHR 0x0A]
         @ ''}'' @ [CHR 0x0A])"

text \<open>The documents \<open>LightColors.kt\<close> and \<open>DarkColors.kt\<close> of \<open>buildTokens\<close>.\<close>

definition buildLightColors_v1 :: "token list \<Rightarrow> string" where
  "buildLightColors_v1 allTokens =
     composeSemantic_v1 (Some ''com.example.designtokens'') (Some ''LightColors'')
       (semanticTokens_v1 allTokens)"

definition buildDarkColors_v1 :: "token list \<Rightarrow> string" where
  "buildDarkColors_v1 allTokens =
     composeSemantic_v1 (Some ''com.example.designtokens'') (Some ''DarkColors'')
       (semanticTokens_v1 allTokens)"

section \<open>The build\<close>

text \<open>
  \<open>buildTokens\<close> runs Style Dictionary five times. What Style Dictionary reads from the
  token files is the input here: the tokens of the primitives, of the primitives with the
  brand book, and of these with the light and with the dark color modes. The filters of
  the file entries keep the brand tokens (\<open>wel.web.bSem\<close>) and the semantic ones
  (\<open>wel.sem.color\<close>).
\<close>

record build_input =
  primitiveTokens :: "token list"
  brandbookTokens :: "token list"
  lightTokens :: "token list"
  darkTokens :: "token list"

definition isBrandbookPath :: "string list \<Rightarrow> bool" where
  "isBrandbookPath p =
     (case p of
        a # b # c # rest \<Rightarrow> a = ''wel'' \<and> b = ''web'' \<and> c = ''bSem''
      | _ \<Rightarrow> False)"

definition buildPrimitivePathMap :: "build_input \<Rightarrow> pathmap" where
  "buildPrimitivePathMap inp = primitivesCollect (primitiveTokens inp) Map.empty"

definition buildBrandbookPathMap :: "build_input \<Rightarrow> pathmap" where
  "buildBrandbookPathMap inp =
     brandbookCollect (buildPrimitivePathMap inp)
       (filter (\<lambda>t. isBrandbookPath (path t)) (brandbookTokens inp)) Map.empty"

definition collectMode :: "build_input \<Rightarrow> mode \<Rightarrow> token list \<Rightarrow> registry \<Rightarrow> registry" where
  "collectMode inp m allTokens reg =
     semanticCollect m (buildPrimitivePathMap inp) (buildBrandbookPathMap inp)
       (filter (\<lambda>t. isSemanticPath (path t)) allTokens) reg"

definition buildRegistry :: "build_input \<Rightarrow> registry" where
  "buildRegistry inp = collectMode inp Dark (darkTokens inp) (collectMode inp Light (lightTokens inp) [])"

definition buildPrimitives :: "build_input \<Rightarrow> (string \<times> string) list" where
  "buildPrimitives inp = primitiveEntries (primitiveTokens inp)"

definition buildSemantics :: "build_input \<Rightarrow> string" where
  "buildSemantics inp =
     generateMergedSemanticColors ''com.accor.designsystem.compose'' ''AccorColorSemantics''
       (buildRegistry inp)"

section \<open>Example inputs\<close>

text \<open>
  A color token as the token files have it: \<open>$type\<close> is \<open>color\<close>, \<open>$value\<close> is the resolved
  value, and \<open>original.$value\<close> is the value as written.
\<close>

definition colorToken :: "string list \<Rightarrow> string \<Rightarrow> string \<Rightarrow> token" where
  "colorToken p v written =
     \<lparr>path = p, dollar_type = JStr ''color'', tok_type = undefined_js,
      tok_value = undefined_js, dollar_value = JStr v,
      original = Some \<lparr>orig_dollar_value = JStr written, orig_value = undefined_js\<rparr>\<rparr>"

text \<open>A primitive of the group \<open>leg\<close> and a semantic token that refers to it.\<close>

definition legNavy :: token where
  "legNavy = colorToken [''wel'', ''prim'', ''color'', ''leg'', ''navy''] ''#000080'' ''#000080''"

definition surfaceHi :: token where
  "surfaceHi = colorToken [''wel'', ''sem'', ''color'', ''surface'', ''hi''] ''#000080''
                 ''{wel.prim.color.leg.navy}''"

definition legExample :: build_input where
  "legExample =
     \<lparr>primitiveTokens = [legNavy], brandbookTokens = [legNavy],
      lightTokens = [legNavy, surfaceHi], darkTokens = [legNavy]\<rparr>"

text \<open>
  A primitive, a brand token that refers to it, and semantic tokens: one of the light mode
  only that refers to the primitive, one of both modes that refers to the brand token in
  the light mode and to a path that nothing defines in the dark mode, a hover variant,
  and one of the dark mode only that is written as a literal.
\<close>

definition blue500 :: token where
  "blue500 = colorToken [''wel'', ''prim'', ''color'', ''blue'', ''500''] ''#0047AB'' ''#0047AB''"

definition brandMain :: token where
  "brandMain = colorToken [''wel'', ''web'', ''bSem'', ''brand'', ''main''] ''#0047AB''
                 ''{wel.prim.color.blue.500}''"

definition textDefault :: token where
  "textDefault = colorToken [''wel'', ''sem'', ''color'', ''text-default''] ''#0047AB''
                   ''{wel.prim.color.blue.500}''"

definition accentLight :: token where
  "accentLight = colorToken [''wel'', ''sem'', ''color'', ''accent''] ''#0047AB''
                   ''{wel.web.bSem.brand.main}''"

definition buttonHover :: token where
  "buttonHover = colorToken [''wel'', ''sem'', ''color'', ''button'', ''Hover''] ''#0047AB''
                   ''{wel.prim.color.blue.500}''"

definition accentDark :: token where
  "accentDark = colorToken [''wel'', ''sem'', ''color'', ''accent''] ''#101010''
                  ''{wel.unknown.grey}''"

definition overlay :: token where
  "overlay = colorToken [''wel'', ''sem'', ''color'', ''overlay''] ''#101010'' ''#101010''"

definition paletteExample :: build_input where
  "paletteExample =
     \<lparr>primitiveTokens = [blue500],
      brandbookTokens = [blue500, brandMain],
      lightTokens = [blue500, brandMain, textDefault, accentLight, buttonHover],
      darkTokens = [blue500, brandMain, accentDark, overlay]\<rparr>"

text \<open>A semantic token whose last segment is a number.\<close>

definition token500 :: token where
  "token500 = colorToken [''wel'', ''sem'', ''color'', ''500''] ''#0047AB'' ''#0047AB''"

section \<open>Notions used in the statements\<close>

definition isUpperHexDigit :: "char \<Rightarrow> bool" where
  "isUpperHexDigit c = (c \<in> set ''0123456789ABCDEF'')"




text \<open>
  A token is collected by a pass when it gets through the filter of the file entry and the
  filter of the format and its value is a color. The identifiers collected from a list of
  tokens, in the order of the tokens.
\<close>

definition collected :: "token \<Rightarrow> bool" where
  "collected t =
     (isSemanticPath (path t) \<and> semanticFilter t \<and> toComposeColor (tokenValue t) \<noteq> None)"




text \<open>The tokens that the pass of a mode is given.\<close>

definition modeTokens :: "build_input \<Rightarrow> mode \<Rightarrow> token list" where
  "modeTokens inp m = (case m of Light \<Rightarrow> lightTokens inp | Dark \<Rightarrow> darkTokens inp)"

text \<open>
  The value that a pass is to store for a token: the identifier found for the path of its
  brace reference in the primitive map, else in the brand map, and the literal color
  parsed from its resolved value when the path is in neither map or the token was not
  written as a brace reference. There is none when the resolved value is not a color.
\<close>

definition expectedStored :: "pathmap \<Rightarrow> pathmap \<Rightarrow> token \<Rightarrow> string option" where
  "expectedStored pm bm t =
     (case toComposeColor (tokenValue t) of
        None \<Rightarrow> None
      | Some color \<Rightarrow>
          Some (case originalRef t of
                  None \<Rightarrow> color
                | Some refPath \<Rightarrow>
                    (case pm refPath of
                       Some name \<Rightarrow> name
                     | None \<Rightarrow> (case bm refPath of Some name \<Rightarrow> name | None \<Rightarrow> color))))"

definition map_nonempty :: "pathmap \<Rightarrow> bool" where
  "map_nonempty pm = (\<forall>v \<in> ran pm. v \<noteq> [])"

text \<open>
  A path indicates an interaction state when one of its segments contains \<open>hover\<close> or
  \<open>pressed\<close>, in any case of the letters.
\<close>

definition interactionState :: "token \<Rightarrow> bool" where
  "interactionState t =
     list_ex (\<lambda>segment. includes_js (toLowerCase segment) ''hover''
                       \<or> includes_js (toLowerCase segment) ''pressed'') (path t)"

text \<open>
  What \<open>toPascalCaseSemantic\<close> has joined, before it replaces \<open>Hi\<close>: every part between
  hyphens with its first letter in upper case, a part made of digits as it is.
\<close>

definition capitalizedParts :: "string \<Rightarrow> string" where
  "capitalizedParts str =
     concat (map (\<lambda>part. if allDigits part then part else capitalize part) (split CHR ''-'' str))"








text \<open>
  The alpha of a functional literal is absent, or it is white space and a fraction after
  a comma. Its text, and the alpha channel that the claim gives it: 255 when it is absent.
\<close>

definition alphaText :: "(string \<times> string) option \<Rightarrow> string" where
  "alphaText alpha = (case alpha of None \<Rightarrow> [] | Some (w, a) \<Rightarrow> '','' @ w @ a)"


text \<open>
  A string is an \<open>rgba()\<close>/\<open>rgb()\<close> functional literal when the pattern of the parser matches
  all of it, and begins with one when the pattern matches at its start. It is a
  hexadecimal literal of \<open>n\<close> digits when it is \<open>#\<close> and exactly \<open>n\<close> hexadecimal digits.
\<close>

definition isRgbaLiteral :: "string \<Rightarrow> bool" where
  "isRgbaLiteral s = (case rgbaAt s of None \<Rightarrow> False | Some (m, rest) \<Rightarrow> rest = [])"




section \<open>Properties of the color parser\<close>

subsection \<open>Hexadecimal literals\<close>

lemma rgbaAt_start: "rgbaAt s \<noteq> None \<Longrightarrow> startsWith s ''rgb''"
  by (auto simp: rgbaAt_def expect_def split: option.splits if_splits)

lemma startsWith_hd: "startsWith s (p # ps) \<Longrightarrow> p \<in> set s"
  by (cases s) auto

lemma rgbaMatch_no_r: "CHR ''r'' \<notin> set s \<Longrightarrow> rgbaMatch s = None"
proof (induction s)
  case Nil
  then show ?case by (simp add: rgbaAt_def expect_def)
next
  case (Cons c cs)
  have "rgbaAt (c # cs) = None"
    using Cons.prems rgbaAt_start[of "c # cs"] startsWith_hd[of "c # cs" "CHR ''r''" "''gb''"]
    by blast
  with Cons show ?case by simp
qed

lemma hex_upper:
  assumes "isHexDigit c"
  shows "\<exists>u. upperChar c = [u] \<and> isUpperHexDigit u"
  using assms unfolding isHexDigit_def isUpperHexDigit_def
  apply (simp only: set_simps insert_iff empty_iff)
  apply (elim disjE)
  apply (simp_all add: upperChar_def lowerLetters_def upperLetters_def)
  done

lemma hex_not_r: "isHexDigit c \<Longrightarrow> c \<noteq> CHR ''r''"
  unfolding isHexDigit_def by auto

lemma toUpperCase_hex_length:
  "list_all isHexDigit h \<Longrightarrow> length (toUpperCase h) = length h"
  by (induction h) (auto simp: toUpperCase_def dest: hex_upper)

lemma toUpperCase_hex_upper:
  "list_all isHexDigit h \<Longrightarrow> list_all isUpperHexDigit (toUpperCase h)"
  by (induction h) (auto simp: toUpperCase_def dest: hex_upper)

lemma toUpperCase_append: "toUpperCase (xs @ ys) = toUpperCase xs @ toUpperCase ys"
  by (simp add: toUpperCase_def)

lemma toComposeColor_hex8_split:
  assumes "length rgb = 6" "length a = 2" "list_all isHexDigit (rgb @ a)"
  shows "toComposeColor (JStr (CHR ''#'' # rgb @ a)) =
           Some (''Color(0x'' @ toUpperCase a @ toUpperCase rgb @ '')'')"
proof -
  let ?s = "CHR ''#'' # rgb @ a"
  have hex: "list_all isHexDigit rgb" "list_all isHexDigit a"
    using assms(3) by simp_all
  have "CHR ''r'' \<notin> set ?s"
    using assms(3) hex_not_r by (auto simp: list_all_iff)
  then have m: "rgbaMatch ?s = None" by (rule rgbaMatch_no_r)
  have b: "\<not> startsWith ?s ''{''" by simp
  have h6: "hexMatch 6 ?s = None" using assms(1,2) by (simp add: hexMatch_def)
  have h8: "hexMatch 8 ?s = Some (rgb @ a)" using assms by (simp add: hexMatch_def)
  have l: "length (toUpperCase rgb) = 6"
    using hex(1) assms(1) by (simp add: toUpperCase_hex_length)
  show ?thesis
    by (simp add: toComposeColor_def m b h6 h8 toUpperCase_append l del: rgbaMatch.simps)
qed

text \<open>
  Claim C2. A string that is \<open>#\<close> and eight hexadecimal digits \<open>RRGGBBAA\<close> is parsed to
  a color whose eight digits are \<open>AARRGGBB\<close>: the last byte of the source comes first, as
  the alpha byte, the three bytes before it keep their order, and every digit is in upper
  case.
\<close>

theorem toComposeColor_hex8:
  assumes "list_all isHexDigit [r1, r2, g1, g2, b1, b2, a1, a2]"
  shows "toComposeColor (JStr [CHR ''#'', r1, r2, g1, g2, b1, b2, a1, a2]) =
           Some (''Color(0x'' @ toUpperCase [a1, a2] @ toUpperCase [r1, r2]
                 @ toUpperCase [g1, g2] @ toUpperCase [b1, b2] @ '')'')
         \<and> length (toUpperCase [a1, a2] @ toUpperCase [r1, r2]
                   @ toUpperCase [g1, g2] @ toUpperCase [b1, b2]) = 8
         \<and> list_all isUpperHexDigit (toUpperCase [a1, a2] @ toUpperCase [r1, r2]
                   @ toUpperCase [g1, g2] @ toUpperCase [b1, b2])"
proof -
  have "toComposeColor (JStr (CHR ''#'' # [r1, r2, g1, g2, b1, b2] @ [a1, a2])) =
          Some (''Color(0x'' @ toUpperCase [a1, a2] @ toUpperCase [r1, r2, g1, g2, b1, b2] @ '')'')"
    using assms by (intro toComposeColor_hex8_split) simp_all
  moreover have "toUpperCase [r1, r2, g1, g2, b1, b2]
                   = toUpperCase [r1, r2] @ toUpperCase [g1, g2] @ toUpperCase [b1, b2]"
    by (simp add: toUpperCase_def)
  moreover have "toUpperCase [a1, a2] @ toUpperCase [r1, r2] @ toUpperCase [g1, g2]
                   @ toUpperCase [b1, b2] = toUpperCase [a1, a2, r1, r2, g1, g2, b1, b2]"
    by (simp add: toUpperCase_def)
  moreover have "length (toUpperCase [a1, a2, r1, r2, g1, g2, b1, b2]) = 8"
    using assms by (subst toUpperCase_hex_length) simp_all
  moreover have "list_all isUpperHexDigit (toUpperCase [a1, a2, r1, r2, g1, g2, b1, b2])"
    using assms by (intro toUpperCase_hex_upper) simp
  ultimately show ?thesis by simp
qed

theorem toComposeColor_hex8_witness:
  "list_all isHexDigit ''11223344''
   \<and> toComposeColor (JStr ''#11223344'') = Some ''Color(0x44112233)''
   \<and> toComposeColor (JStr ''#a1b2c3d4'') = Some ''Color(0xD4A1B2C3)''"
proof -
  have h1: "list_all isHexDigit ''11223344''" by (simp add: isHexDigit_def)
  have h2: "list_all isHexDigit ''a1b2c3d4''" by (simp add: isHexDigit_def)
  have u: "toUpperCase ''44'' = ''44''" "toUpperCase ''11'' = ''11''"
    "toUpperCase ''22'' = ''22''" "toUpperCase ''33'' = ''33''"
    "toUpperCase ''d4'' = ''D4''" "toUpperCase ''a1'' = ''A1''"
    "toUpperCase ''b2'' = ''B2''" "toUpperCase ''c3'' = ''C3''"
    by (simp_all add: toUpperCase_def upperChar_def lowerLetters_def upperLetters_def)
  show ?thesis
    using toComposeColor_hex8[OF h1] toComposeColor_hex8[OF h2] h1 by (simp add: u)
qed

section \<open>Properties of the registry\<close>

subsection \<open>What every build keeps\<close>



lemma map_fst_assign [simp]: "map fst (assign name m v reg) = map fst reg"
  by (induction reg) (auto simp: assign_def)

lemma length_assign [simp]: "length (assign name m v reg) = length reg"
  by (simp add: assign_def)

lemma map_order_assign [simp]:
  "map (\<lambda>e. order (snd e)) (assign name m v reg) = map (\<lambda>e. order (snd e)) reg"
  by (induction reg) (auto simp: assign_def setMode_def split: mode.splits)















subsection \<open>The order of the identifiers\<close>









subsection \<open>The stored values\<close>

lemma map_nonempty_primitives_foldl:
  "map_nonempty pm \<Longrightarrow> map_nonempty (foldl primitivesCollectToken pm ts)"
proof (induction ts arbitrary: pm)
  case Nil
  then show ?case by simp
next
  case (Cons t ts)
  have "map_nonempty (primitivesCollectToken pm t)"
    using Cons.prems by (auto simp: map_nonempty_def primitivesCollectToken_def Let_def ran_def)
  then show ?case by (simp add: Cons.IH)
qed

lemma map_nonempty_primitives: "map_nonempty (buildPrimitivePathMap inp)"
  unfolding buildPrimitivePathMap_def primitivesCollect_def
  by (rule map_nonempty_primitives_foldl) (simp add: map_nonempty_def)

lemma ran_brandbook_foldl:
  "ran bm \<subseteq> ran pm \<Longrightarrow> ran (foldl (brandbookCollectToken pm) bm ts) \<subseteq> ran pm"
proof (induction ts arbitrary: bm)
  case Nil
  then show ?case by simp
next
  case (Cons t ts)
  have "ran (brandbookCollectToken pm bm t) \<subseteq> ran pm"
    using Cons.prems
    by (auto simp: brandbookCollectToken_def Let_def ran_def split: option.splits if_splits)
  then show ?case by (simp add: Cons.IH)
qed

lemma ran_brandbook: "ran (buildBrandbookPathMap inp) \<subseteq> ran (buildPrimitivePathMap inp)"
  unfolding buildBrandbookPathMap_def brandbookCollect_def
  by (rule ran_brandbook_foldl) simp

lemma or_string_getPrimitiveRef:
  assumes "map_nonempty pm" "ran bm \<subseteq> ran pm" "toComposeColor (tokenValue t) = Some color"
  shows "Some (or_string (getPrimitiveRef pm bm t) color) = expectedStored pm bm t"
proof -
  have "\<And>p v. pm p = Some v \<Longrightarrow> v \<noteq> []" using assms(1) by (auto simp: map_nonempty_def ran_def)
  moreover have "\<And>p v. bm p = Some v \<Longrightarrow> v \<noteq> []"
    using assms(1,2) by (fastforce simp: map_nonempty_def ran_def)
  ultimately show ?thesis
    using assms(3)
    by (auto simp: expectedStored_def getPrimitiveRef_def or_string_def split: option.splits)
qed

lemma map_of_assign:
  "map_of (assign name m v reg) n =
     (if n = name then map_option (setMode m v) (map_of reg n) else map_of reg n)"
  by (induction reg) (auto simp: assign_def)

lemma getMode_setMode: "getMode m (setMode m v c) = Some v"
  by (cases m) (simp_all add: getMode_def setMode_def)

lemma getMode_setMode_other: "m' \<noteq> m \<Longrightarrow> getMode m (setMode m' v c) = getMode m c"
  by (cases m; cases m') (simp_all add: getMode_def setMode_def)

lemma has_map_of: "has reg name \<longleftrightarrow> map_of reg name \<noteq> None"
  by (simp add: has_def map_of_eq_None_iff)

lemma map_of_snoc:
  "map_of (reg @ [(k, v)]) n =
     (case map_of reg n of Some x \<Rightarrow> Some x | None \<Rightarrow> if n = k then Some v else None)"
  by (induction reg) auto

lemma step_stores:
  assumes "toComposeColor (tokenValue t) = Some color"
  shows "\<exists>c. map_of (semanticCollectToken m pm bm reg t) (semanticName t) = Some c
             \<and> getMode m c = Some (or_string (getPrimitiveRef pm bm t) color)"
  using assms
  by (auto simp: semanticCollectToken_def Let_def map_of_assign has_map_of getMode_setMode
      map_of_snoc simp del: map_of_append)

lemma step_other_name:
  assumes "semanticName t \<noteq> n \<or> toComposeColor (tokenValue t) = None"
  shows "map_of (semanticCollectToken m pm bm reg t) n = map_of reg n"
  using assms
  by (auto simp: semanticCollectToken_def Let_def map_of_assign map_of_snoc
      simp del: map_of_append split: option.splits)

lemma step_other_mode:
  assumes "m' \<noteq> m" "map_of reg n = Some c"
  shows "\<exists>c'. map_of (semanticCollectToken m' pm bm reg t) n = Some c' \<and> getMode m c' = getMode m c"
  using assms
  by (auto simp: semanticCollectToken_def Let_def map_of_assign getMode_setMode_other
      map_of_snoc simp del: map_of_append split: option.splits)

lemma foldl_other_names:
  assumes "\<forall>u \<in> set ts. toComposeColor (tokenValue u) \<noteq> None \<longrightarrow> semanticName u \<noteq> n"
  shows "map_of (foldl (semanticCollectToken m pm bm) reg ts) n = map_of reg n"
  using assms
proof (induction ts arbitrary: reg)
  case Nil
  then show ?case by simp
next
  case (Cons t ts)
  have "map_of (semanticCollectToken m pm bm reg t) n = map_of reg n"
    using Cons.prems by (intro step_other_name) auto
  with Cons show ?case by simp
qed

lemma foldl_other_mode:
  assumes "m' \<noteq> m" "map_of reg n = Some c"
  shows "\<exists>c'. map_of (foldl (semanticCollectToken m' pm bm) reg ts) n = Some c'
              \<and> getMode m c' = getMode m c"
  using assms(2)
proof (induction ts arbitrary: reg c)
  case Nil
  then show ?case by simp
next
  case (Cons t ts)
  obtain c1 where c1: "map_of (semanticCollectToken m' pm bm reg t) n = Some c1"
      "getMode m c1 = getMode m c"
    using step_other_mode[OF assms(1) Cons.prems] by blast
  from Cons.IH[OF c1(1)] c1(2) show ?case by simp
qed

lemma collectMode_stores:
  assumes "ts = pre @ t # post" "collected t"
    "\<forall>u \<in> set post. collected u \<longrightarrow> semanticName u \<noteq> semanticName t"
  shows "\<exists>c. map_of (collectMode inp m ts reg) (semanticName t) = Some c
             \<and> getMode m c = expectedStored (buildPrimitivePathMap inp) (buildBrandbookPathMap inp) t"
proof -
  let ?pm = "buildPrimitivePathMap inp" and ?bm = "buildBrandbookPathMap inp"
  let ?f = "\<lambda>ts. filter semanticFilter (filter (\<lambda>t. isSemanticPath (path t)) ts)"
  let ?step = "semanticCollectToken m ?pm ?bm"
  obtain color where color: "toComposeColor (tokenValue t) = Some color"
    using assms(2) by (auto simp: collected_def)
  have t: "semanticFilter t" "isSemanticPath (path t)" using assms(2) by (auto simp: collected_def)
  have split: "?f ts = ?f pre @ t # ?f post" using assms(1) t by simp
  obtain c where c: "map_of (?step (foldl ?step reg (?f pre)) t) (semanticName t) = Some c"
      "getMode m c = Some (or_string (getPrimitiveRef ?pm ?bm t) color)"
    using step_stores[OF color] by blast
  have "\<forall>u \<in> set (?f post). toComposeColor (tokenValue u) \<noteq> None \<longrightarrow> semanticName u \<noteq> semanticName t"
    using assms(3) by (auto simp: collected_def)
  then have "map_of (foldl ?step (?step (foldl ?step reg (?f pre)) t) (?f post)) (semanticName t) = Some c"
    using c(1) by (simp add: foldl_other_names)
  moreover have "Some (or_string (getPrimitiveRef ?pm ?bm t) color) = expectedStored ?pm ?bm t"
    using map_nonempty_primitives ran_brandbook color by (rule or_string_getPrimitiveRef)
  ultimately show ?thesis
    using c(2) unfolding collectMode_def semanticCollect_def split by simp
qed

lemma buildRegistry_stores:
  assumes "modeTokens inp m = pre @ t # post" "collected t"
    "\<forall>u \<in> set post. collected u \<longrightarrow> semanticName u \<noteq> semanticName t"
  shows "\<exists>c. map_of (buildRegistry inp) (semanticName t) = Some c
             \<and> getMode m c =
                 expectedStored (buildPrimitivePathMap inp) (buildBrandbookPathMap inp) t"
proof (cases m)
  case Light
  then have ts: "lightTokens inp = pre @ t # post" using assms(1) by (simp add: modeTokens_def)
  obtain c where c: "map_of (collectMode inp Light (lightTokens inp) []) (semanticName t) = Some c"
     "getMode Light c = expectedStored (buildPrimitivePathMap inp) (buildBrandbookPathMap inp) t"
    using collectMode_stores[OF ts assms(2,3), of inp Light "[]"] by blast
  have "\<exists>c'. map_of (collectMode inp Dark (darkTokens inp)
                        (collectMode inp Light (lightTokens inp) []))
               (semanticName t) = Some c' \<and> getMode Light c' = getMode Light c"
    unfolding collectMode_def[of inp Dark] semanticCollect_def
    by (rule foldl_other_mode[OF _ c(1)]) simp
  with c(2) Light show ?thesis by (auto simp: buildRegistry_def)
next
  case Dark
  then have ts: "darkTokens inp = pre @ t # post" using assms(1) by (simp add: modeTokens_def)
  from collectMode_stores[OF ts assms(2,3)] Dark show ?thesis
    by (simp add: buildRegistry_def)
qed

text \<open>
  Claim C1. When a pass collects a semantic color token, the value it stores under the
  identifier of the token and the mode of the pass is the primitive identifier found for
  the path of the brace reference of the token, first in the primitive map and then in the
  brand map, whose values are all identifiers of the primitive map; and it is the literal
  color when the path is in neither map or the token was not written as a brace reference.
  The merged registry has this value for the token unless a later token of the same pass
  has the same identifier. There is always a value to store, and no step of the collection
  fails: each token yields a registry.
\<close>

theorem stored_value_resolves_reference:
  assumes "collected t"
  shows "(\<exists>c. map_of (collectMode inp m (before @ [t]) reg) (semanticName t) = Some c
             \<and> getMode m c =
                 expectedStored (buildPrimitivePathMap inp) (buildBrandbookPathMap inp) t)
         \<and> (modeTokens inp m = pre @ t # post
              \<and> (\<forall>u \<in> set post. collected u \<longrightarrow> semanticName u \<noteq> semanticName t) \<longrightarrow>
             (\<exists>c. map_of (buildRegistry inp) (semanticName t) = Some c
                  \<and> getMode m c =
                      expectedStored (buildPrimitivePathMap inp) (buildBrandbookPathMap inp) t))
         \<and> expectedStored (buildPrimitivePathMap inp) (buildBrandbookPathMap inp) t \<noteq> None
         \<and> ran (buildBrandbookPathMap inp) \<subseteq> ran (buildPrimitivePathMap inp)"
proof -
  have "\<exists>c. map_of (collectMode inp m (before @ [t]) reg) (semanticName t) = Some c
             \<and> getMode m c =
                 expectedStored (buildPrimitivePathMap inp) (buildBrandbookPathMap inp) t"
    using collectMode_stores[of "before @ [t]" before t "[]" inp m reg] assms by simp
  moreover have "expectedStored (buildPrimitivePathMap inp) (buildBrandbookPathMap inp) t \<noteq> None"
    using assms by (auto simp: collected_def expectedStored_def)
  ultimately show ?thesis
    using buildRegistry_stores[of inp m pre t post] assms ran_brandbook[of inp] by blast
qed

subsection \<open>Interaction states\<close>

lemma startsWith_iff: "startsWith s p \<longleftrightarrow> (\<exists>r. s = p @ r)"
  by (induction s p rule: startsWith.induct) auto

lemma includes_js_iff: "includes_js s p \<longleftrightarrow> (\<exists>a b. s = a @ p @ b)"
proof (induction s)
  case Nil
  then show ?case by auto
next
  case (Cons c cs)
  show ?case
  proof
    assume "includes_js (c # cs) p"
    then consider "startsWith (c # cs) p" | "includes_js cs p" by auto
    then show "\<exists>a b. c # cs = a @ p @ b"
    proof cases
      case 1
      then obtain r where "c # cs = p @ r" by (auto simp: startsWith_iff)
      then have "c # cs = [] @ p @ r" by simp
      then show ?thesis by blast
    next
      case 2
      then obtain a b where "cs = a @ p @ b" using Cons by blast
      then have "c # cs = (c # a) @ p @ b" by simp
      then show ?thesis by blast
    qed
  next
    assume "\<exists>a b. c # cs = a @ p @ b"
    then obtain a b where ab: "c # cs = a @ p @ b" by blast
    show "includes_js (c # cs) p"
    proof (cases a)
      case Nil
      with ab have "startsWith (c # cs) p" by (auto simp: startsWith_iff)
      then show ?thesis by simp
    next
      case (Cons x a')
      with ab have "cs = a' @ p @ b" by simp
      then have "includes_js cs p" using Cons.IH by blast
      then show ?thesis by simp
    qed
  qed
qed

lemma join_segment: "x \<in> set xs \<Longrightarrow> \<exists>a b. join sep xs = a @ x @ b"
proof (induction sep xs rule: join.induct)
  case (1 sep)
  then show ?case by simp
next
  case (2 sep y)
  then have "join sep [y] = [] @ x @ []" by simp
  then show ?case by blast
next
  case (3 sep y z zs)
  show ?case
  proof (cases "x = y")
    case True
    then have "join sep (y # z # zs) = [] @ x @ (sep @ join sep (z # zs))" by simp
    then show ?thesis by blast
  next
    case False
    then obtain a b where "join sep (z # zs) = a @ x @ b" using 3 by auto
    then have "join sep (y # z # zs) = (y @ sep @ a) @ x @ b" by simp
    then show ?thesis by blast
  qed
qed

lemma toLowerCase_append: "toLowerCase (a @ b) = toLowerCase a @ toLowerCase b"
  by (simp add: toLowerCase_def)

lemma includes_pathStr:
  assumes "segment \<in> set (path t)" "includes_js (toLowerCase segment) w"
  shows "includes_js (pathStr t) w"
proof -
  obtain a b where "join ''.'' (path t) = a @ segment @ b"
    using join_segment[OF assms(1)] by blast
  moreover obtain c d where "toLowerCase segment = c @ w @ d"
    using assms(2) by (auto simp: includes_js_iff)
  ultimately have "pathStr t = (toLowerCase a @ c) @ w @ (d @ toLowerCase b)"
    by (simp add: pathStr_def toLowerCase_append)
  then show ?thesis unfolding includes_js_iff by blast
qed

lemma interactionState_filtered: "interactionState t \<Longrightarrow> \<not> semanticFilter t"
  by (auto simp: interactionState_def list_ex_iff semanticFilter_def dest: includes_pathStr)

lemma collectMode_drop:
  "interactionState t \<Longrightarrow>
     collectMode inp m (pre @ t # post) reg = collectMode inp m (pre @ post) reg"
  by (simp add: collectMode_def semanticCollect_def interactionState_filtered)

text \<open>
  Claim C9, as amended. In the most complete variant a token whose path indicates a hover or
  pressed variant is not collected: with the token among the tokens of the light pass or of
  the dark pass, the registry and the emitted document are the ones that the build produces
  without it.
\<close>

theorem interaction_states_excluded:
  assumes "interactionState t"
  shows "\<not> collected t
     \<and> buildRegistry (inp\<lparr>lightTokens := pre @ t # post\<rparr>)
         = buildRegistry (inp\<lparr>lightTokens := pre @ post\<rparr>)
     \<and> buildRegistry (inp\<lparr>darkTokens := pre @ t # post\<rparr>)
         = buildRegistry (inp\<lparr>darkTokens := pre @ post\<rparr>)
     \<and> buildSemantics (inp\<lparr>lightTokens := pre @ t # post\<rparr>)
         = buildSemantics (inp\<lparr>lightTokens := pre @ post\<rparr>)
     \<and> buildSemantics (inp\<lparr>darkTokens := pre @ t # post\<rparr>)
         = buildSemantics (inp\<lparr>darkTokens := pre @ post\<rparr>)"
proof -
  have pm: "\<And>f. buildPrimitivePathMap (lightTokens_update f inp) = buildPrimitivePathMap inp"
       "\<And>f. buildPrimitivePathMap (darkTokens_update f inp) = buildPrimitivePathMap inp"
    by (simp_all add: buildPrimitivePathMap_def)
  have bm: "\<And>f. buildBrandbookPathMap (lightTokens_update f inp) = buildBrandbookPathMap inp"
       "\<And>f. buildBrandbookPathMap (darkTokens_update f inp) = buildBrandbookPathMap inp"
    by (simp_all add: buildBrandbookPathMap_def pm)
  have cm:
    "\<And>f m ts reg. collectMode (lightTokens_update f inp) m ts reg = collectMode inp m ts reg"
    "\<And>f m ts reg. collectMode (darkTokens_update f inp) m ts reg = collectMode inp m ts reg"
    by (simp_all add: collectMode_def pm bm)
  have l: "buildRegistry (inp\<lparr>lightTokens := pre @ t # post\<rparr>)
             = buildRegistry (inp\<lparr>lightTokens := pre @ post\<rparr>)"
    using assms by (simp add: buildRegistry_def cm collectMode_drop)
  have d: "buildRegistry (inp\<lparr>darkTokens := pre @ t # post\<rparr>)
             = buildRegistry (inp\<lparr>darkTokens := pre @ post\<rparr>)"
    using assms by (simp add: buildRegistry_def cm collectMode_drop)
  have "\<not> collected t" using assms by (simp add: collected_def interactionState_filtered)
  with l d show ?thesis by (simp add: buildSemantics_def)
qed

section \<open>The primitives of the group \<open>leg\<close>\<close>

lemma dom_primitives_foldl:
  "dom (foldl primitivesCollectToken pm ts) = dom pm \<union> (\<lambda>t. join ''.'' (path t)) ` set ts"
  by (induction ts arbitrary: pm) (auto simp: primitivesCollectToken_def Let_def)

lemma dom_buildPrimitivePathMap:
  "dom (buildPrimitivePathMap inp) =
     (\<lambda>t. join ''.'' (path t)) ` {t \<in> set (primitiveTokens inp). isColor t}"
  by (simp add: buildPrimitivePathMap_def primitivesCollect_def dom_primitives_foldl)

lemma primitiveEntries_origin:
  assumes "e \<in> set (primitiveEntries ts)"
  shows "\<exists>t \<in> set ts. ''leg'' \<notin> set (path t) \<and> primitiveEntry t = Some e"
  using assms by (auto simp: primitiveEntries_def List.map_filter_def)

lemma path_colorToken [simp]: "path (colorToken p v w) = p"
  by (simp add: colorToken_def)

lemma isColor_colorToken [simp]: "isColor (colorToken p v w)"
  by (simp add: colorToken_def isColor_def js_or_def)

lemma tokenValue_colorToken [simp]: "tokenValue (colorToken p v w) = JStr v"
  by (simp add: colorToken_def tokenValue_def js_or_def)

lemma originalValue_colorToken [simp]:
  "w \<noteq> [] \<Longrightarrow> originalValue (colorToken p v w) = JStr w"
  by (simp add: colorToken_def originalValue_def js_or_def)

lemma eval_navy_name:
  "toPrimitiveKotlinName [''wel'', ''prim'', ''color'', ''leg'', ''navy''] = ''Navy''"
  by code_simp

lemma eval_navy_color: "toComposeColor (JStr ''#000080'') = Some ''Color(0xFF000080)''"
  by code_simp

lemma eval_surfaceHi_filter: "semanticFilter surfaceHi"
  by code_simp

lemma eval_surfaceHi_name: "semanticName surfaceHi = ''SurfaceHigh''"
  by code_simp

lemma eval_surfaceHi_ref: "originalRef surfaceHi = Some ''wel.prim.color.leg.navy''"
  by code_simp

lemma eval_legNavy_path: "\<not> isSemanticPath (path legNavy)" "isSemanticPath (path surfaceHi)"
  by (simp_all add: legNavy_def surfaceHi_def isSemanticPath_def)

lemma legExample_pm:
  "buildPrimitivePathMap legExample =
     [''wel.prim.color.leg.navy'' \<mapsto> ''AccorColorPrimitives.Navy'']"
  by (simp add: buildPrimitivePathMap_def primitivesCollect_def primitivesCollectToken_def
      legExample_def legNavy_def eval_navy_name)

lemma legExample_registry:
  "buildRegistry legExample =
     [(''SurfaceHigh'', \<lparr>order = 0, light = Some ''AccorColorPrimitives.Navy'', dark = None\<rparr>)]"
proof -
  have v: "tokenValue surfaceHi = JStr ''#000080''" by (simp add: surfaceHi_def)
  have r: "getPrimitiveRef (buildPrimitivePathMap legExample) bm surfaceHi
             = Some ''AccorColorPrimitives.Navy''" for bm
    by (simp add: getPrimitiveRef_def eval_surfaceHi_ref legExample_pm)
  have l: "lightTokens legExample = [legNavy, surfaceHi]" "darkTokens legExample = [legNavy]"
    by (simp_all add: legExample_def)
  show ?thesis
    by (simp add: buildRegistry_def collectMode_def semanticCollect_def l eval_legNavy_path
        eval_surfaceHi_filter semanticCollectToken_def v eval_navy_color eval_surfaceHi_name
        r has_def assign_def setMode_def or_string_def)
qed

lemma legExample_primitives: "buildPrimitives legExample = []"
  by (simp add: buildPrimitives_def primitiveEntries_def legExample_def legNavy_def)

text \<open>
  Claim C10. The primitive lookup map has a key for every color token of the primitives,
  whatever its path; every entry of the emitted primitives object comes from a token whose
  path has no segment \<open>leg\<close>. So, in the example, the accessor \<open>SurfaceHigh\<close> of the emitted
  semantics refers to \<open>AccorColorPrimitives.Navy\<close>, which the emitted primitives object
  does not define.
\<close>

theorem leg_reference_undefined:
  "dom (buildPrimitivePathMap inp) =
     (\<lambda>t. join ''.'' (path t)) ` {t \<in> set (primitiveTokens inp). isColor t}
   \<and> (\<forall>e \<in> set (buildPrimitives inp).
        \<exists>t \<in> set (primitiveTokens inp). ''leg'' \<notin> set (path t) \<and> primitiveEntry t = Some e)
   \<and> mergedEntries (buildRegistry legExample) =
        [(''SurfaceHigh'', ''AccorColorPrimitives.Navy'', ''AccorColorPrimitives.Navy'')]
   \<and> ''Navy'' \<notin> fst ` set (buildPrimitives legExample)"
proof -
  have "mergedEntries (buildRegistry legExample) =
        [(''SurfaceHigh'', ''AccorColorPrimitives.Navy'', ''AccorColorPrimitives.Navy'')]"
    by (simp add: legExample_registry mergedEntries_def mergedEntry_def or_string_def)
  then show ?thesis
    using primitiveEntries_origin[of _ "primitiveTokens inp"]
    by (simp add: dom_buildPrimitivePathMap buildPrimitives_def[of inp] legExample_primitives)
qed

theorem leg_reference_undefined_witness:
  "buildPrimitivePathMap legExample ''wel.prim.color.leg.navy''
     = Some ''AccorColorPrimitives.Navy''
   \<and> ''leg'' \<in> set (path legNavy)
   \<and> buildPrimitives legExample = []
   \<and> mergedEntries (buildRegistry legExample) =
        [(''SurfaceHigh'', ''AccorColorPrimitives.Navy'', ''AccorColorPrimitives.Navy'')]"
  using leg_reference_undefined[of legExample]
  by (simp add: legExample_pm legExample_primitives legNavy_def)

section \<open>The build on the palette example\<close>

lemma eval_blue500_name:
  "toPrimitiveKotlinName [''wel'', ''prim'', ''color'', ''blue'', ''500''] = ''Blue500''"
  by code_simp

lemma eval_colors:
  "toComposeColor (JStr ''#0047AB'') = Some ''Color(0xFF0047AB)''"
  "toComposeColor (JStr ''#101010'') = Some ''Color(0xFF101010)''"
  by code_simp+

lemma eval_filters:
  "semanticFilter textDefault" "semanticFilter accentLight" "\<not> semanticFilter buttonHover"
  "semanticFilter accentDark" "semanticFilter overlay"
  by code_simp+

lemma eval_names:
  "semanticName textDefault = ''TextDefault''" "semanticName accentLight = ''Accent''"
  "semanticName accentDark = ''Accent''" "semanticName overlay = ''Overlay''"
  by code_simp+

lemma eval_refs:
  "originalRef brandMain = Some ''wel.prim.color.blue.500''"
  "originalRef textDefault = Some ''wel.prim.color.blue.500''"
  "originalRef accentLight = Some ''wel.web.bSem.brand.main''"
  "originalRef accentDark = Some ''wel.unknown.grey''"
  "originalRef overlay = None"
  by code_simp+

lemma eval_paths:
  "\<not> isSemanticPath (path blue500)" "\<not> isSemanticPath (path brandMain)"
  "isSemanticPath (path textDefault)" "isSemanticPath (path accentLight)"
  "isSemanticPath (path buttonHover)" "isSemanticPath (path accentDark)"
  "isSemanticPath (path overlay)"
  "\<not> isBrandbookPath (path blue500)" "isBrandbookPath (path brandMain)"
  by (simp_all add: blue500_def brandMain_def textDefault_def accentLight_def buttonHover_def
      accentDark_def overlay_def isSemanticPath_def isBrandbookPath_def)

lemma eval_values:
  "tokenValue textDefault = JStr ''#0047AB''" "tokenValue accentLight = JStr ''#0047AB''"
  "tokenValue accentDark = JStr ''#101010''" "tokenValue overlay = JStr ''#101010''"
  by (simp_all add: textDefault_def accentLight_def accentDark_def overlay_def)

lemma palette_pm:
  "buildPrimitivePathMap paletteExample =
     [''wel.prim.color.blue.500'' \<mapsto> ''AccorColorPrimitives.Blue500'']"
  by (simp add: buildPrimitivePathMap_def primitivesCollect_def primitivesCollectToken_def
      paletteExample_def blue500_def eval_blue500_name)

lemma palette_bm:
  "buildBrandbookPathMap paletteExample =
     [''wel.web.bSem.brand.main'' \<mapsto> ''AccorColorPrimitives.Blue500'']"
proof -
  have "brandbookTokens paletteExample = [blue500, brandMain]" by (simp add: paletteExample_def)
  moreover have "isColor brandMain" "join ''.'' (path brandMain) = ''wel.web.bSem.brand.main''"
    by (simp_all add: brandMain_def)
  ultimately show ?thesis
    by (simp add: buildBrandbookPathMap_def brandbookCollect_def brandbookCollectToken_def
        eval_paths eval_refs palette_pm)
qed

lemma palette_expected:
  "expectedStored (buildPrimitivePathMap paletteExample) (buildBrandbookPathMap paletteExample)
     textDefault = Some ''AccorColorPrimitives.Blue500''"
  "expectedStored (buildPrimitivePathMap paletteExample) (buildBrandbookPathMap paletteExample)
     accentLight = Some ''AccorColorPrimitives.Blue500''"
  "expectedStored (buildPrimitivePathMap paletteExample) (buildBrandbookPathMap paletteExample)
     accentDark = Some ''Color(0xFF101010)''"
  "expectedStored (buildPrimitivePathMap paletteExample) (buildBrandbookPathMap paletteExample)
     overlay = Some ''Color(0xFF101010)''"
  by (simp_all add: expectedStored_def eval_values eval_colors eval_refs palette_pm palette_bm)

lemma palette_collected:
  "\<not> collected blue500" "\<not> collected brandMain" "collected textDefault" "collected accentLight"
  "\<not> collected buttonHover" "collected accentDark" "collected overlay"
  by (simp_all add: collected_def eval_paths eval_filters eval_values eval_colors)

lemma palette_tokens:
  "lightTokens paletteExample = [blue500, brandMain, textDefault, accentLight, buttonHover]"
  "darkTokens paletteExample = [blue500, brandMain, accentDark, overlay]"
  by (simp_all add: paletteExample_def)

lemma palette_registry:
  "buildRegistry paletteExample =
     [(''TextDefault'', \<lparr>order = 0, light = Some ''AccorColorPrimitives.Blue500'', dark = None\<rparr>),
      (''Accent'', \<lparr>order = 1, light = Some ''AccorColorPrimitives.Blue500'',
                    dark = Some ''Color(0xFF101010)''\<rparr>),
      (''Overlay'', \<lparr>order = 2, light = None, dark = Some ''Color(0xFF101010)''\<rparr>)]"
proof -
  have r: "getPrimitiveRef (buildPrimitivePathMap paletteExample)
             (buildBrandbookPathMap paletteExample) textDefault
           = Some ''AccorColorPrimitives.Blue500''"
     "getPrimitiveRef (buildPrimitivePathMap paletteExample)
             (buildBrandbookPathMap paletteExample) accentLight
           = Some ''AccorColorPrimitives.Blue500''"
     "getPrimitiveRef (buildPrimitivePathMap paletteExample)
             (buildBrandbookPathMap paletteExample) accentDark = None"
     "getPrimitiveRef (buildPrimitivePathMap paletteExample)
             (buildBrandbookPathMap paletteExample) overlay = None"
    by (simp_all add: getPrimitiveRef_def eval_refs palette_pm palette_bm)
  show ?thesis
    by (simp add: buildRegistry_def collectMode_def semanticCollect_def palette_tokens eval_paths
        eval_filters semanticCollectToken_def eval_values eval_colors eval_names
        r has_def assign_def setMode_def or_string_def)
qed







theorem stored_value_resolves_reference_witness:
  "collected textDefault \<and> collected accentLight \<and> collected accentDark \<and> collected overlay
   \<and> (\<exists>c. map_of (buildRegistry paletteExample) ''TextDefault'' = Some c
           \<and> light c = Some ''AccorColorPrimitives.Blue500'')
   \<and> (\<exists>c. map_of (buildRegistry paletteExample) ''Accent'' = Some c
           \<and> light c = Some ''AccorColorPrimitives.Blue500'')
   \<and> (\<exists>c. map_of (buildRegistry paletteExample) ''Accent'' = Some c
           \<and> dark c = Some ''Color(0xFF101010)'')
   \<and> (\<exists>c. map_of (buildRegistry paletteExample) ''Overlay'' = Some c
           \<and> dark c = Some ''Color(0xFF101010)'')"
proof -
  have l1: "modeTokens paletteExample Light
              = [blue500, brandMain] @ textDefault # [accentLight, buttonHover]"
   and l2: "modeTokens paletteExample Light
              = [blue500, brandMain, textDefault] @ accentLight # [buttonHover]"
   and d1: "modeTokens paletteExample Dark = [blue500, brandMain] @ accentDark # [overlay]"
   and d2: "modeTokens paletteExample Dark = [blue500, brandMain, accentDark] @ overlay # []"
    by (simp_all add: modeTokens_def palette_tokens)
  have p1: "\<forall>u \<in> set [accentLight, buttonHover].
              collected u \<longrightarrow> semanticName u \<noteq> semanticName textDefault"
   and p2: "\<forall>u \<in> set [buttonHover].
              collected u \<longrightarrow> semanticName u \<noteq> semanticName accentLight"
   and p3: "\<forall>u \<in> set [overlay].
              collected u \<longrightarrow> semanticName u \<noteq> semanticName accentDark"
   and p4: "\<forall>u \<in> set []. collected u \<longrightarrow> semanticName u \<noteq> semanticName overlay"
    by (simp_all add: palette_collected eval_names)
  have "\<exists>c. map_of (buildRegistry paletteExample) (semanticName textDefault) = Some c
             \<and> getMode Light c = Some ''AccorColorPrimitives.Blue500''"
    using stored_value_resolves_reference[OF palette_collected(3), where inp = paletteExample
        and m = Light and pre = "[blue500, brandMain]" and post = "[accentLight, buttonHover]"]
      l1 p1 palette_expected(1) by simp
  moreover have "\<exists>c. map_of (buildRegistry paletteExample) (semanticName accentLight) = Some c
             \<and> getMode Light c = Some ''AccorColorPrimitives.Blue500''"
    using stored_value_resolves_reference[OF palette_collected(4), where inp = paletteExample
        and m = Light and pre = "[blue500, brandMain, textDefault]" and post = "[buttonHover]"]
      l2 p2 palette_expected(2) by simp
  moreover have "\<exists>c. map_of (buildRegistry paletteExample) (semanticName accentDark) = Some c
             \<and> getMode Dark c = Some ''Color(0xFF101010)''"
    using stored_value_resolves_reference[OF palette_collected(6), where inp = paletteExample
        and m = Dark and pre = "[blue500, brandMain]" and post = "[overlay]"]
      d1 p3 palette_expected(3) by simp
  moreover have "\<exists>c. map_of (buildRegistry paletteExample) (semanticName overlay) = Some c
             \<and> getMode Dark c = Some ''Color(0xFF101010)''"
    using stored_value_resolves_reference[OF palette_collected(7), where inp = paletteExample
        and m = Dark and pre = "[blue500, brandMain, accentDark]" and post = "[]"]
      d2 p4 palette_expected(4) by simp
  ultimately show ?thesis
    by (simp add: palette_collected eval_names getMode_def)
qed

lemma buttonHover_state: "interactionState buttonHover"
  by code_simp

theorem interaction_states_excluded_witness:
  "interactionState buttonHover
   \<and> buildRegistry paletteExample
     = buildRegistry
         (paletteExample\<lparr>lightTokens := [blue500, brandMain, textDefault, accentLight]\<rparr>)
   \<and> ''ButtonHover'' \<notin> fst ` set (buildRegistry paletteExample)"
proof -
  let ?pre = "[blue500, brandMain, textDefault, accentLight]"
  have e: "paletteExample\<lparr>lightTokens := ?pre @ buttonHover # []\<rparr> = paletteExample"
    by (simp add: paletteExample_def)
  have "buildRegistry (paletteExample\<lparr>lightTokens := ?pre @ buttonHover # []\<rparr>)
          = buildRegistry (paletteExample\<lparr>lightTokens := ?pre @ []\<rparr>)"
    using interaction_states_excluded[OF buttonHover_state] by blast
  then have "buildRegistry paletteExample
               = buildRegistry (paletteExample\<lparr>lightTokens := ?pre\<rparr>)"
    by (simp only: e append_Nil2)
  moreover have "''ButtonHover'' \<notin> fst ` set (buildRegistry paletteExample)"
    by (simp add: palette_registry)
  ultimately show ?thesis using buttonHover_state by blast
qed

lemma eval_v1_names:
  "semanticName_v1 (path textDefault) = ''textDefault''"
  "semanticName_v1 (path accentLight) = ''accent''"
  "semanticName_v1 (path buttonHover) = ''buttonHover''"
  by code_simp+

lemma eval_v1_kinds:
  "isColor blue500" "isColor brandMain" "isColor textDefault" "isColor accentLight"
  "isColor buttonHover"
  by code_simp+

lemma eval_v1_value: "tokenValue buttonHover = JStr ''#0047AB''"
  by (simp add: buttonHover_def colorToken_def tokenValue_def js_or_def)

lemma eval_v1_lines:
  "composeSemanticLines_v1 (semanticTokens_v1 (lightTokens paletteExample))
     = [''    val textDefault = Color(0xFF0047AB)'', ''    val accent = Color(0xFF0047AB)'',
        ''    val buttonHover = Color(0xFF0047AB)'']"
  by (simp add: composeSemanticLines_v1_def semanticTokens_v1_def composeSemanticLine_v1_def
      paletteExample_def eval_paths eval_values eval_colors eval_v1_names eval_v1_kinds eval_v1_value
      List.map_filter_def)

text \<open>
  Claim C9 as stated fails in the first variant of the script: the format
  \<open>compose/semantic\<close> of \<open>build-tokens.js\<close> filters on the kind only, and the token
  \<open>wel.sem.color.button.Hover\<close> of the light mode has its line in \<open>LightColors.kt\<close>.
\<close>

theorem hover_token_emitted_first_variant_counterexample:
  "interactionState buttonHover
   \<and> ''    val buttonHover = Color(0xFF0047AB)''
       \<in> set (composeSemanticLines_v1 (semanticTokens_v1 (lightTokens paletteExample)))
   \<and> buildLightColors_v1 (lightTokens paletteExample)
       = ''package com.example.designtokens'' @ [CHR 0x0A, CHR 0x0A]
         @ ''import androidx.compose.ui.graphics.Color'' @ [CHR 0x0A, CHR 0x0A]
         @ ''object LightColors {'' @ [CHR 0x0A]
         @ ''    val textDefault = Color(0xFF0047AB)'' @ [CHR 0x0A]
         @ ''    val accent = Color(0xFF0047AB)'' @ [CHR 0x0A]
         @ ''    val buttonHover = Color(0xFF0047AB)'' @ [CHR 0x0A]
         @ ''}'' @ [CHR 0x0A]"
  using buttonHover_state
  by (simp add: buildLightColors_v1_def composeSemantic_v1_def eval_v1_lines or_string_def)

section \<open>Properties of the identifier normalizers\<close>

lemma endsWith_iff: "endsWith s p \<longleftrightarrow> (\<exists>a. s = a @ p)"
proof -
  have "endsWith s p \<longleftrightarrow> (\<exists>r. rev s = rev p @ r)" by (simp add: endsWith_def startsWith_iff)
  also have "\<dots> \<longleftrightarrow> (\<exists>a. s = a @ p)"
  proof
    assume "\<exists>r. rev s = rev p @ r"
    then obtain r where "rev s = rev p @ r" by blast
    then have "s = rev r @ p" by (metis rev_append rev_rev_ident)
    then show "\<exists>a. s = a @ p" by blast
  next
    assume "\<exists>a. s = a @ p"
    then show "\<exists>r. rev s = rev p @ r" by auto
  qed
  finally show ?thesis .
qed

lemma digit_not_dash: "isDigit d \<Longrightarrow> d \<noteq> CHR ''-'' \<and> d \<noteq> CHR ''_''"
  unfolding isDigit_def by auto

lemma replaceTempEnd_prefixed:
  assumes "isDigit d"
  shows "\<exists>rest. replaceTempEnd (CHR ''_'' # d # ds) = CHR ''_'' # d # rest"
proof (cases "endsWith (CHR ''_'' # d # ds) ''-temp''")
  case False
  then show ?thesis by (simp add: replaceTempEnd_def)
next
  case True
  then obtain a where a: "CHR ''_'' # d # ds = a @ ''-temp''" by (auto simp: endsWith_iff)
  have "\<exists>a'. a = CHR ''_'' # d # a'"
  proof (cases a)
    case Nil
    with a show ?thesis by simp
  next
    case (Cons x xs)
    note outer = Cons
    show ?thesis
    proof (cases xs)
      case Nil
      with a outer digit_not_dash[OF assms] show ?thesis by simp
    next
      case (Cons y ys)
      with a outer show ?thesis by simp
    qed
  qed
  then obtain a' where a': "a = CHR ''_'' # d # a'" by blast
  have "take (length (CHR ''_'' # d # ds) - 5) (CHR ''_'' # d # ds) = a"
    by (subst a, subst a) simp
  with True a' show ?thesis by (simp add: replaceTempEnd_def)
qed

lemma camelReplace_prefixed:
  assumes "isDigit d"
  shows "\<exists>rest. camelReplace (CHR ''_'' # d # ds) = CHR ''_'' # d # rest"
  using digit_not_dash[OF assms] by (cases ds) auto

lemma underscore_case: "lowerChar CHR ''_'' = CHR ''_''" "upperChar CHR ''_'' = ''_''"
  by (simp_all add: lowerChar_def upperChar_def lowerLetters_def upperLetters_def)

lemma kotlinPart_v1_prefixed:
  assumes "part \<noteq> []" "isDigit (hd part)"
  shows "\<exists>rest. kotlinPart_v1 index part = CHR ''_'' # hd part # rest"
proof -
  obtain d ds where p: "part = d # ds" using assms(1) by (cases part) auto
  then have d: "isDigit d" using assms(2) by simp
  obtain r1 where r1: "replaceTempEnd (CHR ''_'' # d # ds) = CHR ''_'' # d # r1"
    using replaceTempEnd_prefixed[OF d] by blast
  obtain r2 where r2: "camelReplace (CHR ''_'' # d # r1) = CHR ''_'' # d # r2"
    using camelReplace_prefixed[OF d] by blast
  show ?thesis
    using p d r1 r2 by (simp add: kotlinPart_v1_def underscore_case del: camelReplace.simps)
qed

lemma split_no_sep: "sep \<notin> set s \<Longrightarrow> split sep s = [s]"
  by (induction s) auto

lemma not_digit_not_in: "list_all isDigit s \<Longrightarrow> \<not> isDigit c \<Longrightarrow> c \<notin> set s"
  by (auto simp: list_all_iff)

lemma digits_no_letters:
  assumes "list_all isDigit s"
  shows "CHR ''-'' \<notin> set s" "CHR ''H'' \<notin> set s" "CHR ''i'' \<notin> set s"
  by (rule not_digit_not_in[OF assms], simp add: isDigit_def)+

lemma semanticPart_v1_prefixed:
  assumes "part \<noteq> []" "isDigit (hd part)"
  shows "\<exists>rest. semanticPart_v1 index part = CHR ''_'' # hd part # rest"
proof -
  obtain d ds where p: "part = d # ds" using assms(1) by (cases part) auto
  then have d: "isDigit d" using assms(2) by simp
  obtain r2 where r2: "camelReplace (CHR ''_'' # d # ds) = CHR ''_'' # d # r2"
    using camelReplace_prefixed[OF d] by blast
  show ?thesis
    using p d r2 by (simp add: semanticPart_v1_def underscore_case del: camelReplace.simps)
qed

lemma indexed_parts_append:
  "concat (map2 f [i ..< i + length (xs @ y # ys)] (xs @ y # ys))
     = concat (map2 f [i ..< i + length xs] xs) @ f (i + length xs) y
       @ concat (map2 f [Suc (i + length xs) ..< Suc (i + length xs) + length ys] ys)"
proof -
  have z: "\<And>i zs. map2 f [i ..< i + length zs] zs = map (case_prod f) (List.enumerate i zs)"
    by (simp add: enumerate_eq_zip)
  show ?thesis unfolding z by (simp add: enumerate_append_eq)
qed

lemma toPrimitiveKotlinName_v1_append:
  assumes "part \<noteq> []" "isDigit (hd part)"
  shows "\<exists>rest. toPrimitiveKotlinName_v1 (before @ part # after)
           = toPrimitiveKotlinName_v1 before @ CHR ''_'' # hd part # rest"
proof -
  obtain r where "kotlinPart_v1 (length before) part = CHR ''_'' # hd part # r"
    using kotlinPart_v1_prefixed[OF assms] by blast
  then show ?thesis
    unfolding toPrimitiveKotlinName_v1_def
    using indexed_parts_append[of kotlinPart_v1 0 before part after] by simp
qed

lemma semanticName_v1_append:
  assumes "part \<noteq> []" "isDigit (hd part)"
  shows "\<exists>rest. semanticName_v1 (a # b # c # before @ part # after)
           = semanticName_v1 (a # b # c # before) @ CHR ''_'' # hd part # rest"
proof -
  obtain r where "semanticPart_v1 (length before) part = CHR ''_'' # hd part # r"
    using semanticPart_v1_prefixed[OF assms] by blast
  then show ?thesis
    unfolding semanticName_v1_def
    using indexed_parts_append[of semanticPart_v1 0 before part after] by (simp add: Let_def)
qed

lemma split_not_Nil: "split sep s \<noteq> []"
  by (induction s) (auto split: list.splits)

lemma split_append_sep: "split sep (a @ sep # b) = split sep a @ split sep b"
proof (induction a)
  case Nil
  then show ?case by simp
next
  case (Cons c a)
  obtain p ps where "split sep a = p # ps" using split_not_Nil[of sep a] by (cases "split sep a") auto
  then show ?case using Cons by simp
qed

lemma split_join:
  "xs \<noteq> [] \<Longrightarrow> split sep (join [sep] xs) = concat (map (split sep) xs)"
proof (induction "[sep]" xs rule: join.induct)
  case 1
  then show ?case by simp
next
  case (2 x)
  then show ?case by simp
next
  case (3 x y ys)
  then show ?case by (simp add: split_append_sep)
qed

lemma parts_of_join:
  assumes "h [] = []"
  shows "concat (map h (split sep (join [sep] xs))) = concat (map h (concat (map (split sep) xs)))"
proof (cases xs)
  case Nil
  then show ?thesis using assms by simp
next
  case (Cons x xs')
  then show ?thesis using split_join[of xs sep] by simp
qed

lemma parts_of_join_append:
  assumes "h [] = []" "split sep part = [part]"
  shows "concat (map h (split sep (join [sep] (before @ part # after))))
           = concat (map h (split sep (join [sep] before))) @ h part
             @ concat (map h (split sep (join [sep] after)))"
  by (simp add: parts_of_join[of h sep, OF assms(1)] assms(2))

lemma replace_words_Nil: "foldl (\<lambda>result (w, r). replaceAllCI w r result) [] ws = []"
  by (induction ws) auto

lemma split_digits: "allDigits part \<Longrightarrow> split CHR ''-'' part = [part]"
  by (simp add: allDigits_def split_no_sep digits_no_letters)

lemma toPascalCasePrimitive_append:
  assumes "allDigits part"
  shows "toPascalCasePrimitive (join ''-'' (before @ part # after))
           = toPascalCasePrimitive (join ''-'' before) @ part
             @ toPascalCasePrimitive (join ''-'' after)"
proof -
  let ?h = "\<lambda>part. if allDigits part then part
              else foldl (\<lambda>result (w, r). replaceAllCI w r result) (capitalize part) colorWords"
  have h: "?h [] = []" by (simp add: allDigits_def capitalize_def replace_words_Nil)
  show ?thesis
    unfolding toPascalCasePrimitive_def
    using parts_of_join_append[of ?h "CHR ''-''" part before after, OF h split_digits[OF assms]]
      assms by simp
qed

lemma capitalizedParts_append:
  assumes "allDigits part"
  shows "capitalizedParts (join ''-'' (before @ part # after))
           = capitalizedParts (join ''-'' before) @ part @ capitalizedParts (join ''-'' after)"
proof -
  let ?h = "\<lambda>part. if allDigits part then part else capitalize part"
  have h: "?h [] = []" by (simp add: allDigits_def capitalize_def)
  show ?thesis
    unfolding capitalizedParts_def
    using parts_of_join_append[of ?h "CHR ''-''" part before after, OF h split_digits[OF assms]]
      assms by simp
qed

lemma toPascalCaseSemantic_parts:
  "toPascalCaseSemantic str = replaceHiUpper (replaceHiEnd (capitalizedParts str))"
  by (simp add: toPascalCaseSemantic_def capitalizedParts_def)

lemma digit_not_Hi: "isDigit d \<Longrightarrow> d \<noteq> CHR ''H'' \<and> d \<noteq> CHR ''i'' \<and> \<not> isUpperAscii d"
  unfolding isDigit_def isUpperAscii_def by auto

lemma replaceHiEnd_after_digit:
  assumes "isDigit d"
  shows "replaceHiEnd (a @ d # b) = a @ d # replaceHiEnd b"
proof -
  have "endsWith (a @ d # b) ''Hi'' \<longleftrightarrow> endsWith b ''Hi''"
  proof (cases "rev b")
    case Nil
    then show ?thesis using digit_not_Hi[OF assms] by (simp add: endsWith_def)
  next
    case (Cons x xs)
    then show ?thesis using digit_not_Hi[OF assms] by (cases xs) (auto simp: endsWith_def)
  qed
  then show ?thesis by (simp add: replaceHiEnd_def)
qed

lemma replaceHiUpper_digit:
  assumes "isDigit d"
  shows "replaceHiUpper (d # r) = d # replaceHiUpper r"
proof (cases r)
  case Nil
  then show ?thesis by simp
next
  case (Cons x xs)
  then show ?thesis using digit_not_Hi[OF assms] by (cases xs) auto
qed

lemma replaceHiUpper_before_digit:
  assumes "isDigit d"
  shows "replaceHiUpper (a @ d # r) = replaceHiUpper a @ d # replaceHiUpper r"
proof (induction a rule: replaceHiUpper.induct)
  fix x y z zs
  assume "\<not> (x = CHR ''H'' \<and> y = CHR ''i'' \<and> isUpperAscii z) \<Longrightarrow>
            replaceHiUpper ((y # z # zs) @ d # r)
              = replaceHiUpper (y # z # zs) @ d # replaceHiUpper r"
    and "x = CHR ''H'' \<and> y = CHR ''i'' \<and> isUpperAscii z \<Longrightarrow>
            replaceHiUpper (zs @ d # r) = replaceHiUpper zs @ d # replaceHiUpper r"
  then show "replaceHiUpper ((x # y # z # zs) @ d # r)
               = replaceHiUpper (x # y # z # zs) @ d # replaceHiUpper r"
    by simp
next
  show "replaceHiUpper ([] @ d # r) = replaceHiUpper [] @ d # replaceHiUpper r"
    using replaceHiUpper_digit[OF assms] by simp
next
  fix x
  have "replaceHiUpper (x # d # r) = x # replaceHiUpper (d # r)"
    using digit_not_Hi[OF assms] by (cases r) auto
  then show "replaceHiUpper ([x] @ d # r) = replaceHiUpper [x] @ d # replaceHiUpper r"
    using replaceHiUpper_digit[OF assms] by simp
next
  fix x y
  have "replaceHiUpper (x # y # d # r) = x # replaceHiUpper (y # d # r)"
    using digit_not_Hi[OF assms] by simp
  moreover have "replaceHiUpper (y # d # r) = y # replaceHiUpper (d # r)"
    using digit_not_Hi[OF assms] by (cases r) auto
  ultimately show "replaceHiUpper ([x, y] @ d # r)
                     = replaceHiUpper [x, y] @ d # replaceHiUpper r"
    using replaceHiUpper_digit[OF assms] by simp
qed

lemma replaceHi_digits:
  assumes "allDigits part"
  shows "replaceHiUpper (replaceHiEnd (a @ part @ b))
           = replaceHiUpper a @ part @ replaceHiUpper (replaceHiEnd b)"
proof -
  have e: "list_all isDigit ds \<Longrightarrow> replaceHiEnd (a @ ds @ b) = a @ ds @ replaceHiEnd b
             \<or> ds = []" for ds a
  proof (induction ds arbitrary: a)
    case Nil
    then show ?case by simp
  next
    case (Cons d ds)
    show ?case
    proof (cases "ds = []")
      case True
      then show ?thesis using Cons.prems replaceHiEnd_after_digit[of d a b] by simp
    next
      case False
      then have "replaceHiEnd ((a @ [d]) @ ds @ b) = (a @ [d]) @ ds @ replaceHiEnd b"
        using Cons.IH[of "a @ [d]"] Cons.prems by simp
      then show ?thesis by simp
    qed
  qed
  have u: "list_all isDigit ds \<Longrightarrow> replaceHiUpper (ds @ r) = ds @ replaceHiUpper r" for ds r
    by (induction ds) (simp_all add: replaceHiUpper_digit)
  obtain d ds where p: "part = d # ds" "isDigit d" "list_all isDigit ds"
    using assms by (cases part) (auto simp: allDigits_def)
  have "replaceHiEnd (a @ part @ b) = a @ part @ replaceHiEnd b"
    using e[of part a] assms p by (auto simp: allDigits_def)
  moreover have "replaceHiUpper (a @ part @ r) = replaceHiUpper a @ part @ replaceHiUpper r" for r
    using replaceHiUpper_before_digit[OF p(2), of a "ds @ r"] u[OF p(3), of r] p(1) by simp
  ultimately show ?thesis by simp
qed

lemma toPascalCaseSemantic_append:
  assumes "allDigits part"
  shows "toPascalCaseSemantic (join ''-'' (before @ part # after))
           = replaceHiUpper (capitalizedParts (join ''-'' before)) @ part
             @ toPascalCaseSemantic (join ''-'' after)"
  by (simp only: toPascalCaseSemantic_parts capitalizedParts_append[OF assms]
      replaceHi_digits[OF assms])

text \<open>
  Claim C8, as amended. In the first variant of the script (\<open>build-tokens.js\<close>) both
  name mappings, \<open>toPrimitiveKotlinName\<close> and the one of the format \<open>compose/semantic\<close>,
  put an underscore before every path segment that begins with a digit: the identifier is
  the identifier of the segments before it, then the underscore, the digit and the rest.
  In the most complete variant both normalizers take a segment that consists of digits
  into the identifier as it is, with no prefix: the identifier of the segments joined with
  hyphens is what comes from the segments before, then the digits, then the identifier of
  the segments after.
\<close>

theorem digit_segment_prefix_first_variant:
  "(part \<noteq> [] \<and> isDigit (hd part) \<longrightarrow>
      (\<exists>rest. kotlinPart_v1 index part = CHR ''_'' # hd part # rest)
      \<and> (\<exists>rest. semanticPart_v1 index part = CHR ''_'' # hd part # rest)
      \<and> (\<exists>rest. toPrimitiveKotlinName_v1 (before @ part # after)
                  = toPrimitiveKotlinName_v1 before @ CHR ''_'' # hd part # rest)
      \<and> (\<exists>rest. semanticName_v1 (a # b # c # before @ part # after)
                  = semanticName_v1 (a # b # c # before) @ CHR ''_'' # hd part # rest))
   \<and> (allDigits part \<longrightarrow>
        toPascalCasePrimitive (join ''-'' (before @ part # after))
          = toPascalCasePrimitive (join ''-'' before) @ part
            @ toPascalCasePrimitive (join ''-'' after)
        \<and> toPascalCaseSemantic (join ''-'' (before @ part # after))
          = replaceHiUpper (capitalizedParts (join ''-'' before)) @ part
            @ toPascalCaseSemantic (join ''-'' after))"
  using kotlinPart_v1_prefixed[of part index] semanticPart_v1_prefixed[of part index]
    toPrimitiveKotlinName_v1_append[of part before after]
    semanticName_v1_append[of part a b c before after]
    toPascalCasePrimitive_append[of part before after]
    toPascalCaseSemantic_append[of part before after]
  by blast

text \<open>
  Claim C8 as stated fails in the most complete variant: the segment \<open>500\<close> gets no
  prefix, and the identifiers of \<open>wel.prim.color.500\<close> and of \<open>wel.sem.color.500\<close> begin
  with a digit.
\<close>

theorem digit_segment_no_prefix_counterexample:
  "isDigit (hd ''500'')
   \<and> toPrimitiveKotlinName [''wel'', ''prim'', ''color'', ''blue'', ''500''] = ''Blue500''
   \<and> toPrimitiveKotlinName [''wel'', ''prim'', ''color'', ''500''] = ''500''
   \<and> semanticName token500 = ''500''
   \<and> toPascalCaseSemantic ''2xl'' = ''2xl''"
proof -
  have "isDigit (hd ''500'')" by (simp add: isDigit_def)
  moreover have "toPrimitiveKotlinName [''wel'', ''prim'', ''color'', ''500''] = ''500''"
    by code_simp
  moreover have "semanticName token500 = ''500''" by code_simp
  moreover have "toPascalCaseSemantic ''2xl'' = ''2xl''" by code_simp
  ultimately show ?thesis using eval_blue500_name by simp
qed

lemma eval_v1_parts:
  "kotlinPart_v1 4 ''500'' = ''_500''" "semanticPart_v1 4 ''500'' = ''_500''"
  "toPrimitiveKotlinName_v1 [''blue'', ''500'', ''dark''] = ''blue_500Dark''"
  "semanticName_v1 [''wel'', ''sem'', ''color'', ''blue'', ''500'', ''dark''] = ''blue_500Dark''"
  "toPrimitiveKotlinName_v1 [''blue''] = ''blue''"
  "semanticName_v1 [''wel'', ''sem'', ''color'', ''blue''] = ''blue''"
  by code_simp+

lemma eval_pascal_parts:
  "toPascalCasePrimitive ''blue'' = ''Blue''" "toPascalCasePrimitive ''dark'' = ''Dark''"
  "replaceHiUpper (capitalizedParts ''blue'') = ''Blue''" "toPascalCaseSemantic ''dark'' = ''Dark''"
  by code_simp+

theorem digit_segment_prefix_first_variant_witness:
  "isDigit (hd ''500'') \<and> allDigits ''500''
   \<and> kotlinPart_v1 4 ''500'' = ''_500'' \<and> semanticPart_v1 4 ''500'' = ''_500''
   \<and> toPrimitiveKotlinName_v1 [''blue'', ''500'', ''dark''] = ''blue'' @ ''_500Dark''
   \<and> semanticName_v1 [''wel'', ''sem'', ''color'', ''blue'', ''500'', ''dark'']
       = ''blue'' @ ''_500Dark''
   \<and> toPascalCasePrimitive ''blue-500-dark'' = ''Blue'' @ ''500'' @ ''Dark''
   \<and> toPascalCaseSemantic ''blue-500-dark'' = ''Blue'' @ ''500'' @ ''Dark''"
proof -
  have h: "''500'' \<noteq> []" "isDigit (hd ''500'')" "allDigits ''500''"
    by (simp_all add: isDigit_def allDigits_def)
  have j: "join ''-'' ([''blue''] @ ''500'' # [''dark'']) = ''blue-500-dark''"
    "join ''-'' [''blue''] = ''blue''" "join ''-'' [''dark''] = ''dark''"
    by simp_all
  from digit_segment_prefix_first_variant[of "''500''" 4 "[''blue'']" "[''dark'']"
      "''wel''" "''sem''" "''color''"] h
  have "toPascalCasePrimitive (join ''-'' ([''blue''] @ ''500'' # [''dark'']))
          = toPascalCasePrimitive (join ''-'' [''blue'']) @ ''500''
            @ toPascalCasePrimitive (join ''-'' [''dark''])"
    "toPascalCaseSemantic (join ''-'' ([''blue''] @ ''500'' # [''dark'']))
          = replaceHiUpper (capitalizedParts (join ''-'' [''blue''])) @ ''500''
            @ toPascalCaseSemantic (join ''-'' [''dark''])"
    by blast+
  then have "toPascalCasePrimitive ''blue-500-dark'' = ''Blue'' @ ''500'' @ ''Dark''"
    "toPascalCaseSemantic ''blue-500-dark'' = ''Blue'' @ ''500'' @ ''Dark''"
    by (simp_all only: j eval_pascal_parts)
  then show ?thesis using h eval_v1_parts by simp
qed

section \<open>Properties of the numbers\<close>

declare bitLength.simps [simp del] hexDigits.simps [simp del]

subsection \<open>Bytes in hexadecimal\<close>







subsection \<open>Powers of two and the exponent\<close>

lemma pow2_power_int: "pow2 k = power_int 2 k"
  by (simp add: pow2_def power_int_def power_inverse field_simps)






lemma pow2_nat: "pow2 (int n) = 2 ^ n"
  by (simp add: pow2_def)

lemma pow2_minus: "pow2 (- int n) = 1 / 2 ^ n"
  by (simp add: pow2_power_int power_int_minus_divide)

lemma bitLength_upper: "n < 2 ^ bitLength n"
proof (induction n rule: bitLength.induct)
  case (1 n)
  show ?case
  proof (cases "n = 0")
    case True
    then show ?thesis by (simp add: bitLength.simps[of n])
  next
    case False
    then have "n div 2 < 2 ^ bitLength (n div 2)" using 1 by simp
    then have "n < 2 * 2 ^ bitLength (n div 2)" by linarith
    with False show ?thesis by (simp add: bitLength.simps[of n])
  qed
qed

lemma bitLength_lower: "0 < n \<Longrightarrow> 2 ^ (bitLength n - 1) \<le> n"
proof (induction n rule: bitLength.induct)
  case (1 n)
  show ?case
  proof (cases "n div 2 = 0")
    case True
    then show ?thesis using "1.prems"
      by (simp add: bitLength.simps[of n] bitLength.simps[of 0])
  next
    case False
    then have ih: "2 ^ (bitLength (n div 2) - 1) \<le> n div 2" using 1 by simp
    have pos: "0 < bitLength (n div 2)" using False by (simp add: bitLength.simps[of "n div 2"])
    then have "(2::nat) ^ bitLength (n div 2) = 2 * 2 ^ (bitLength (n div 2) - 1)"
      by (cases "bitLength (n div 2)") simp_all
    with ih have "2 ^ bitLength (n div 2) \<le> n" by linarith
    with "1.prems" show ?thesis by (simp add: bitLength.simps[of n])
  qed
qed


lemma binadeExp_upper:
  assumes "0 < q"
  shows "q < pow2 (binadeExp q + 1)"
proof (cases "1 \<le> q")
  case True
  let ?n = "nat \<lfloor>q\<rfloor>"
  have n: "0 < ?n" using True by simp
  then have b: "0 < bitLength ?n" by (simp add: bitLength.simps[of ?n])
  have "binadeExp q + 1 = int (bitLength ?n)" using True b by (simp add: binadeExp_def)
  then have e: "pow2 (binadeExp q + 1) = of_nat (2 ^ bitLength ?n)" by (simp add: pow2_nat)
  have "?n + 1 \<le> 2 ^ bitLength ?n" using bitLength_upper[of ?n] by linarith
  then have "(of_nat (?n + 1) :: rat) \<le> of_nat (2 ^ bitLength ?n)" by (simp only: of_nat_le_iff)
  moreover have "q < of_nat (?n + 1)" using True by simp linarith
  ultimately show ?thesis using e by simp
next
  case False
  let ?m = "nat (\<lceil>1 / q\<rceil> - 1)"
  have "1 < 1 / q" using assms False by simp
  then have c: "2 \<le> \<lceil>1 / q\<rceil>" by linarith
  then have m: "0 < ?m" by simp
  have e: "binadeExp q + 1 = - int (bitLength ?m - 1)"
    using False m by (simp add: binadeExp_def bitLength.simps[of ?m])
  have im: "int ?m = \<lceil>1 / q\<rceil> - 1" using c by arith
  have "(of_nat (2 ^ (bitLength ?m - 1)) :: rat) \<le> of_nat ?m"
    using bitLength_lower[OF m] by (simp only: of_nat_le_iff)
  also have "(of_nat ?m :: rat) = of_int (\<lceil>1 / q\<rceil> - 1)"
    using im by (metis of_int_of_nat_eq)
  also have "\<dots> < 1 / q" using ceiling_correct[of "1 / q"] by simp
  finally have "2 ^ (bitLength ?m - 1) < 1 / q" by simp
  then have "q < 1 / 2 ^ (bitLength ?m - 1)" using assms by (simp add: field_simps)
  then show ?thesis by (simp only: e pow2_minus)
qed

subsection \<open>Rounding to a double\<close>













section \<open>Functional literals\<close>

subsection \<open>The alpha and the channels\<close>








subsection \<open>The pattern on a literal\<close>

lemma startsWith_append: "startsWith (p @ s) p"
  by (simp add: startsWith_iff)

lemma expect_append: "expect p (p @ s) = Some s"
  by (simp add: expect_def startsWith_append)

lemma takeWhile_stop:
  "\<not> P c \<Longrightarrow> takeWhile P (c # s) = []"
  by simp

lemma skipSpace_run:
  assumes "list_all isSpace w" "takeWhile isSpace s = []"
  shows "skipSpace (w @ s) = s"
proof -
  have "dropWhile isSpace (w @ s) = dropWhile isSpace s"
    using assms(1) by (simp add: list_all_iff dropWhile_append2)
  moreover have "dropWhile isSpace s = s"
    using assms(2) takeWhile_dropWhile_id[of isSpace s] by simp
  ultimately show ?thesis by (simp add: skipSpace_def)
qed

lemma many1_run:
  assumes "xs \<noteq> []" "list_all P xs" "takeWhile P s = []"
  shows "many1 P (xs @ s) = Some (xs, s)"
proof -
  have t: "takeWhile P (xs @ s) = xs"
    using assms(2,3) by (simp add: list_all_iff takeWhile_append2)
  have "dropWhile P (xs @ s) = dropWhile P s"
    using assms(2) by (simp add: list_all_iff dropWhile_append2)
  moreover have "dropWhile P s = s"
    using assms(3) takeWhile_dropWhile_id[of P s] by simp
  ultimately show ?thesis using assms(1) t by (simp add: many1_def)
qed

lemma class_facts:
  "\<not> isSpace CHR '',''" "\<not> isSpace CHR '')''" "\<not> isDigit CHR '',''" "\<not> isDigit CHR '')''"
  "\<not> isNumChar CHR '')''" "\<not> isNumChar CHR '',''"
  by (simp_all add: isSpace_def isDigit_def isNumChar_def)

lemma space_not_digit: "isSpace c \<Longrightarrow> \<not> isDigit c \<and> \<not> isNumChar c"
  unfolding isSpace_def isDigit_def isNumChar_def
  apply (simp only: set_simps insert_iff empty_iff)
  apply (elim disjE)
  apply simp_all
  done

lemma digit_not_space: "isDigit c \<Longrightarrow> \<not> isSpace c"
  using space_not_digit by blast

lemma numChar_not_space: "isNumChar c \<Longrightarrow> \<not> isSpace c"
  using space_not_digit by blast

lemma stop_after_spaces:
  assumes "list_all isSpace w" "\<not> P c" "\<And>x. isSpace x \<Longrightarrow> \<not> P x"
  shows "takeWhile P (w @ c # s) = []"
  using assms by (cases w) auto

lemma stop_at_run:
  assumes "xs \<noteq> []" "list_all Q xs" "\<And>x. Q x \<Longrightarrow> \<not> P x"
  shows "takeWhile P (xs @ s) = []"
  using assms by (cases xs) auto

lemma tail_parse:
  assumes "list_all isSpace w6" "list_all isSpace w8"
    and "case alpha of None \<Rightarrow> True
         | Some (w7, a) \<Rightarrow> list_all isSpace w7 \<and> a \<noteq> [] \<and> list_all isNumChar a"
  shows "(case alphaGroup (skipSpace (w6 @ alphaText alpha @ w8 @ '')'' @ rest)) of
            None \<Rightarrow> None
          | Some (a, s8) \<Rightarrow> (case expect '')'' (skipSpace s8) of None \<Rightarrow> None
                                | Some s9 \<Rightarrow> Some (k a s9)))
         = Some (k (map_option snd alpha) rest)"
proof (cases alpha)
  case None
  have "skipSpace ((w6 @ w8) @ '')'' @ rest) = '')'' @ rest"
    using assms(1,2) by (intro skipSpace_run) (simp_all add: class_facts)
  moreover have "skipSpace ('')'' @ rest) = [] @ '')'' @ rest"
    by (simp add: skipSpace_def class_facts)
  ultimately show ?thesis
    using None by (simp add: alphaText_def alphaGroup_def expect_def)
next
  case (Some wa)
  obtain w7 a where wa: "wa = (w7, a)" by (cases wa)
  have a: "list_all isSpace w7" "a \<noteq> []" "list_all isNumChar a"
    using assms(3) Some wa by simp_all
  have s1: "skipSpace (w6 @ '','' @ w7 @ a @ w8 @ '')'' @ rest) = '','' @ w7 @ a @ w8 @ '')'' @ rest"
    using assms(1) by (intro skipSpace_run) (simp_all add: class_facts)
  have s2: "skipSpace (w7 @ a @ w8 @ '')'' @ rest) = a @ w8 @ '')'' @ rest"
    using a by (intro skipSpace_run stop_at_run[where Q = isNumChar]) (simp_all add: numChar_not_space)
  have m: "many1 isNumChar (a @ w8 @ '')'' @ rest) = Some (a, w8 @ '')'' @ rest)"
    using a assms(2)
    by (intro many1_run) (simp_all add: stop_after_spaces class_facts space_not_digit)
  have s3: "skipSpace (w8 @ '')'' @ rest) = '')'' @ rest"
    using assms(2) by (intro skipSpace_run) (simp_all add: class_facts)
  show ?thesis
    using Some wa s1 s2 m s3 by (simp add: alphaText_def alphaGroup_def expect_def)
qed

lemma rgbaAt_literal:
  assumes kw: "kw = [] \<or> kw = ''a''"
    and ws: "list_all isSpace w1" "list_all isSpace w2" "list_all isSpace w3"
      "list_all isSpace w4" "list_all isSpace w5" "list_all isSpace w6" "list_all isSpace w8"
    and digits: "allDigits r" "allDigits g" "allDigits b"
    and alpha: "case alpha of None \<Rightarrow> True
         | Some (w7, a) \<Rightarrow> list_all isSpace w7 \<and> a \<noteq> [] \<and> list_all isNumChar a"
  shows "rgbaAt (''rgb'' @ kw @ ''('' @ w1 @ r @ w2 @ '','' @ w3 @ g @ w4 @ '','' @ w5 @ b
                 @ w6 @ alphaText alpha @ w8 @ '')'' @ rest)
         = Some (\<lparr>group_r = r, group_g = g, group_b = b, group_a = map_option snd alpha\<rparr>, rest)"
proof -
  let ?t7 = "w6 @ alphaText alpha @ w8 @ '')'' @ rest"
  let ?t6 = "w5 @ b @ ?t7"
  let ?t5 = "w4 @ '','' @ ?t6"
  let ?t4 = "w3 @ g @ ?t5"
  let ?t3 = "w2 @ '','' @ ?t4"
  let ?t2 = "w1 @ r @ ?t3"
  have d: "r \<noteq> []" "list_all isDigit r" "g \<noteq> []" "list_all isDigit g" "b \<noteq> []" "list_all isDigit b"
    using digits by (simp_all add: allDigits_def)
  have e1: "expect ''rgb'' (''rgb'' @ kw @ ''('' @ ?t2) = Some (kw @ ''('' @ ?t2)"
    by (rule expect_append)
  have e2: "expect ''('' (if startsWith (kw @ ''('' @ ?t2) ''a'' then drop 1 (kw @ ''('' @ ?t2)
                          else kw @ ''('' @ ?t2) = Some ?t2"
    using kw by (auto simp: expect_def)
  have k1: "skipSpace ?t2 = r @ ?t3"
    using ws(1) d(1,2) by (intro skipSpace_run stop_at_run[where Q = isDigit]) (simp_all add: digit_not_space)
  have m1: "many1 isDigit (r @ ?t3) = Some (r, ?t3)"
    using d(1,2) ws(2) by (intro many1_run) (simp_all add: stop_after_spaces class_facts space_not_digit)
  have k2: "skipSpace ?t3 = '','' @ ?t4"
    using ws(2) by (intro skipSpace_run) (simp_all add: class_facts)
  have e3: "expect '','' ('','' @ ?t4) = Some ?t4" by (rule expect_append)
  have k3: "skipSpace ?t4 = g @ ?t5"
    using ws(3) d(3,4) by (intro skipSpace_run stop_at_run[where Q = isDigit]) (simp_all add: digit_not_space)
  have m2: "many1 isDigit (g @ ?t5) = Some (g, ?t5)"
    using d(3,4) ws(4) by (intro many1_run) (simp_all add: stop_after_spaces class_facts space_not_digit)
  have k4: "skipSpace ?t5 = '','' @ ?t6"
    using ws(4) by (intro skipSpace_run) (simp_all add: class_facts)
  have e4: "expect '','' ('','' @ ?t6) = Some ?t6" by (rule expect_append)
  have k5: "skipSpace ?t6 = b @ ?t7"
    using ws(5) d(5,6) by (intro skipSpace_run stop_at_run[where Q = isDigit]) (simp_all add: digit_not_space)
  have m3: "many1 isDigit (b @ ?t7) = Some (b, ?t7)"
  proof (cases alpha)
    case None
    have "takeWhile isDigit ((w6 @ w8) @ CHR '')'' # rest) = []"
      using ws(6,7) by (intro stop_after_spaces) (simp_all add: class_facts space_not_digit)
    then show ?thesis using d(5,6) None by (intro many1_run) (simp_all add: alphaText_def)
  next
    case (Some wa)
    have "takeWhile isDigit (w6 @ CHR '','' # (fst wa @ snd wa @ w8 @ '')'' @ rest)) = []"
      using ws(6) by (intro stop_after_spaces) (simp_all add: class_facts space_not_digit)
    then show ?thesis using d(5,6) Some
      by (intro many1_run) (simp_all add: alphaText_def case_prod_beta)
  qed
  note tail = tail_parse[OF ws(6,7) alpha, where rest = rest]
  show ?thesis
    unfolding rgbaAt_def
    by (simp only: e1 e2 k1 m1 k2 e3 k3 m2 k4 e4 k5 m3 option.case prod.case tail)
qed

subsection \<open>The parsed color\<close>

lemma floor_rat_numeral [simp]: "\<lfloor>numeral a / numeral b :: rat\<rfloor> = numeral a div numeral b"
  by (metis floor_divide_of_int_eq of_int_numeral)

lemma ceiling_rat_numeral [simp]:
  "\<lceil>numeral a / numeral b :: rat\<rceil> = - (- numeral a div numeral b)"
  by (metis ceiling_divide_eq_div of_int_numeral)











section \<open>Strings that are not colors\<close>

subsection \<open>What the pattern matches\<close>

text \<open>
  Every match of the pattern has the shape of a functional literal: \<open>rgb\<close>, an optional
  \<open>a\<close>, the three groups of digits between commas, an optional alpha made of digits and
  dots, and white space where the pattern allows it.
\<close>

lemma expect_Some: "expect p s = Some t \<Longrightarrow> s = p @ t"
  by (auto simp: expect_def startsWith_iff split: if_splits)

lemma many1_Some:
  assumes "many1 P s = Some (x, t)"
  shows "s = x @ t" "x \<noteq> []" "list_all P x"
proof -
  have x: "x = takeWhile P s" "t = dropWhile P s" "takeWhile P s \<noteq> []"
    using assms by (auto simp: many1_def split: if_splits)
  show "s = x @ t" using x by simp
  show "x \<noteq> []" using x by simp
  show "list_all P x" using x(1) by (simp add: list_all_iff) (meson set_takeWhileD)
qed

lemma skipSpace_split: "\<exists>w. s = w @ skipSpace s \<and> list_all isSpace w"
proof -
  have "s = takeWhile isSpace s @ skipSpace s" by (simp add: skipSpace_def)
  moreover have "list_all isSpace (takeWhile isSpace s)"
    by (simp add: list_all_iff) (meson set_takeWhileD)
  ultimately show ?thesis by blast
qed

lemma optional_a:
  "\<exists>kw. s = kw @ (if startsWith s ''a'' then drop 1 s else s) \<and> (kw = [] \<or> kw = ''a'')"
proof (cases "startsWith s ''a''")
  case True
  then obtain r where "s = ''a'' @ r" by (auto simp: startsWith_iff)
  then show ?thesis by auto
next
  case False
  then show ?thesis by simp
qed

lemma alphaGroup_Some:
  assumes "alphaGroup s = Some (a, t)"
  shows "\<exists>alpha. a = map_option snd alpha \<and> s = alphaText alpha @ t
           \<and> (case alpha of None \<Rightarrow> True
               | Some (w7, x) \<Rightarrow> list_all isSpace w7 \<and> x \<noteq> [] \<and> list_all isNumChar x)"
proof (cases s)
  case Nil
  then show ?thesis using assms by (simp add: alphaGroup_def)
next
  case (Cons c u)
  show ?thesis
  proof (cases "c = CHR '',''")
    case False
    then have "a = None" "t = s" using assms Cons by (simp_all add: alphaGroup_def)
    then have "a = map_option snd None \<and> s = alphaText None @ t
           \<and> (case (None :: (string \<times> string) option) of None \<Rightarrow> True
               | Some (w7, x) \<Rightarrow> list_all isSpace w7 \<and> x \<noteq> [] \<and> list_all isNumChar x)"
      by (simp add: alphaText_def)
    then show ?thesis by blast
  next
    case True
    then obtain x where m: "many1 isNumChar (skipSpace u) = Some (x, t)" and a: "a = Some x"
      using assms Cons by (auto simp: alphaGroup_def split: option.splits)
    obtain w where w: "u = w @ skipSpace u" "list_all isSpace w" using skipSpace_split by blast
    have "s = alphaText (Some (w, x)) @ t"
      using Cons True w(1) many1_Some(1)[OF m] by (simp add: alphaText_def)
    then have "a = map_option snd (Some (w, x)) \<and> s = alphaText (Some (w, x)) @ t
           \<and> (case Some (w, x) of None \<Rightarrow> True
               | Some (w7, x) \<Rightarrow> list_all isSpace w7 \<and> x \<noteq> [] \<and> list_all isNumChar x)"
      using a w(2) many1_Some(2,3)[OF m] by simp
    then show ?thesis by blast
  qed
qed

lemma rgbaAt_Some:
  assumes "rgbaAt s = Some (m, rest)"
  shows "\<exists>kw w1 r w2 w3 g w4 w5 b w6 alpha w8.
           s = ''rgb'' @ kw @ ''('' @ w1 @ r @ w2 @ '','' @ w3 @ g @ w4 @ '','' @ w5 @ b
               @ w6 @ alphaText alpha @ w8 @ '')'' @ rest
           \<and> m = \<lparr>group_r = r, group_g = g, group_b = b, group_a = map_option snd alpha\<rparr>
           \<and> (kw = [] \<or> kw = ''a'')
           \<and> list_all isSpace w1 \<and> list_all isSpace w2 \<and> list_all isSpace w3
           \<and> list_all isSpace w4 \<and> list_all isSpace w5 \<and> list_all isSpace w6
           \<and> list_all isSpace w8
           \<and> allDigits r \<and> allDigits g \<and> allDigits b
           \<and> (case alpha of None \<Rightarrow> True
               | Some (w7, a) \<Rightarrow> list_all isSpace w7 \<and> a \<noteq> [] \<and> list_all isNumChar a)"
proof -
  from assms obtain s1 s2 r s3 s4 g s5 s6 b s7 a s8 where
    e1: "expect ''rgb'' s = Some s1" and
    e2: "expect ''('' (if startsWith s1 ''a'' then drop 1 s1 else s1) = Some s2" and
    m1: "many1 isDigit (skipSpace s2) = Some (r, s3)" and
    e3: "expect '','' (skipSpace s3) = Some s4" and
    m2: "many1 isDigit (skipSpace s4) = Some (g, s5)" and
    e4: "expect '','' (skipSpace s5) = Some s6" and
    m3: "many1 isDigit (skipSpace s6) = Some (b, s7)" and
    ag: "alphaGroup (skipSpace s7) = Some (a, s8)" and
    e5: "expect '')'' (skipSpace s8) = Some rest" and
    m: "m = \<lparr>group_r = r, group_g = g, group_b = b, group_a = a\<rparr>"
    unfolding rgbaAt_def by (auto split: option.splits)
  obtain kw where kw: "s1 = kw @ (if startsWith s1 ''a'' then drop 1 s1 else s1)"
      "kw = [] \<or> kw = ''a''"
    using optional_a by blast
  obtain w1 where w1: "s2 = w1 @ skipSpace s2" "list_all isSpace w1" using skipSpace_split by blast
  obtain w2 where w2: "s3 = w2 @ skipSpace s3" "list_all isSpace w2" using skipSpace_split by blast
  obtain w3 where w3: "s4 = w3 @ skipSpace s4" "list_all isSpace w3" using skipSpace_split by blast
  obtain w4 where w4: "s5 = w4 @ skipSpace s5" "list_all isSpace w4" using skipSpace_split by blast
  obtain w5 where w5: "s6 = w5 @ skipSpace s6" "list_all isSpace w5" using skipSpace_split by blast
  obtain w6 where w6: "s7 = w6 @ skipSpace s7" "list_all isSpace w6" using skipSpace_split by blast
  obtain w8 where w8: "s8 = w8 @ skipSpace s8" "list_all isSpace w8" using skipSpace_split by blast
  obtain alpha where alpha: "a = map_option snd alpha" "skipSpace s7 = alphaText alpha @ s8"
      "case alpha of None \<Rightarrow> True
       | Some (w7, x) \<Rightarrow> list_all isSpace w7 \<and> x \<noteq> [] \<and> list_all isNumChar x"
    using alphaGroup_Some[OF ag] by blast
  have t8: "s8 = w8 @ '')'' @ rest" using w8(1) expect_Some[OF e5] by simp
  have t7: "s7 = w6 @ alphaText alpha @ s8" using w6(1) alpha(2) by simp
  have t6: "s6 = w5 @ b @ s7" using w5(1) many1_Some(1)[OF m3] by simp
  have t5: "s5 = w4 @ '','' @ s6" using w4(1) expect_Some[OF e4] by simp
  have t4: "s4 = w3 @ g @ s5" using w3(1) many1_Some(1)[OF m2] by simp
  have t3: "s3 = w2 @ '','' @ s4" using w2(1) expect_Some[OF e3] by simp
  have t2: "s2 = w1 @ r @ s3" using w1(1) many1_Some(1)[OF m1] by simp
  have t1: "s1 = kw @ ''('' @ s2" using kw(1) expect_Some[OF e2] by simp
  have t0: "s = ''rgb'' @ s1" using expect_Some[OF e1] by simp
  have shape: "s = ''rgb'' @ kw @ ''('' @ w1 @ r @ w2 @ '','' @ w3 @ g @ w4 @ '','' @ w5 @ b
               @ w6 @ alphaText alpha @ w8 @ '')'' @ rest"
    by (simp only: t0 t1 t2 t3 t4 t5 t6 t7 t8 append_assoc)
  have d: "allDigits r" "allDigits g" "allDigits b"
    using many1_Some(2,3)[OF m1] many1_Some(2,3)[OF m2] many1_Some(2,3)[OF m3]
    by (simp_all add: allDigits_def)
  show ?thesis
    using shape m alpha(1,3) kw(2) w1(2) w2(2) w3(2) w4(2) w5(2) w6(2) w8(2) d by blast
qed



lemma isRgbaLiteral_iff:
  "isRgbaLiteral s \<longleftrightarrow>
     (\<exists>kw w1 r w2 w3 g w4 w5 b w6 alpha w8.
        s = ''rgb'' @ kw @ ''('' @ w1 @ r @ w2 @ '','' @ w3 @ g @ w4 @ '','' @ w5 @ b
            @ w6 @ alphaText alpha @ w8 @ '')''
        \<and> (kw = [] \<or> kw = ''a'')
        \<and> list_all isSpace w1 \<and> list_all isSpace w2 \<and> list_all isSpace w3
        \<and> list_all isSpace w4 \<and> list_all isSpace w5 \<and> list_all isSpace w6
        \<and> list_all isSpace w8
        \<and> allDigits r \<and> allDigits g \<and> allDigits b
        \<and> (case alpha of None \<Rightarrow> True
            | Some (w7, a) \<Rightarrow> list_all isSpace w7 \<and> a \<noteq> [] \<and> list_all isNumChar a))"
  (is "?l \<longleftrightarrow> ?r")
proof
  assume ?l
  then obtain m where "rgbaAt s = Some (m, [])"
    by (auto simp: isRgbaLiteral_def split: option.splits)
  from rgbaAt_Some[OF this] obtain kw w1 r w2 w3 g w4 w5 b w6 alpha w8 where
    shape: "s = ''rgb'' @ kw @ ''('' @ w1 @ r @ w2 @ '','' @ w3 @ g @ w4 @ '','' @ w5 @ b
               @ w6 @ alphaText alpha @ w8 @ '')'' @ []" and
    c: "kw = [] \<or> kw = ''a''" "list_all isSpace w1" "list_all isSpace w2" "list_all isSpace w3"
      "list_all isSpace w4" "list_all isSpace w5" "list_all isSpace w6" "list_all isSpace w8"
      "allDigits r" "allDigits g" "allDigits b"
      "case alpha of None \<Rightarrow> True
       | Some (w7, a) \<Rightarrow> list_all isSpace w7 \<and> a \<noteq> [] \<and> list_all isNumChar a"
    by blast
  have "s = ''rgb'' @ kw @ ''('' @ w1 @ r @ w2 @ '','' @ w3 @ g @ w4 @ '','' @ w5 @ b
               @ w6 @ alphaText alpha @ w8 @ '')''"
    using shape by (simp only: append_Nil2)
  then show ?r using c by blast
next
  assume ?r
  then obtain kw w1 r w2 w3 g w4 w5 b w6 alpha w8 where
    shape: "s = ''rgb'' @ kw @ ''('' @ w1 @ r @ w2 @ '','' @ w3 @ g @ w4 @ '','' @ w5 @ b
               @ w6 @ alphaText alpha @ w8 @ '')''" and
    c: "kw = [] \<or> kw = ''a''" "list_all isSpace w1" "list_all isSpace w2" "list_all isSpace w3"
      "list_all isSpace w4" "list_all isSpace w5" "list_all isSpace w6" "list_all isSpace w8"
      "allDigits r" "allDigits g" "allDigits b"
      "case alpha of None \<Rightarrow> True
       | Some (w7, a) \<Rightarrow> list_all isSpace w7 \<and> a \<noteq> [] \<and> list_all isNumChar a"
    by blast
  have "rgbaAt s \<noteq> None \<and> (\<forall>m rest. rgbaAt s = Some (m, rest) \<longrightarrow> rest = [])"
    using rgbaAt_literal[OF c, of "[]"] shape by simp
  then show ?l by (auto simp: isRgbaLiteral_def split: option.splits)
qed



subsection \<open>The strings that give no color\<close>




end
